theory Spec2Isabelle
  imports Main "HOL-Library.Sublist"
begin

section \<open>The move-lines command of the editor (moveLinesCommand.ts, last revision)\<close>

text \<open>
  The embedding follows the third (last) revision of \<open>MoveLinesCommand\<close> in
  \<open>src/vs/editor/contrib/linesOperations/browser/moveLinesCommand.ts\<close>. Line and column
  numbers are JavaScript numbers used as integers; they are \<open>int\<close> here, because the
  command computes \<open>startLineNumber - 1\<close> and \<open>line - 1\<close> freely and line 0 does occur.
  A JavaScript string is a \<open>string\<close>; the line feed is \<open>CHR 0x0A\<close>.
\<close>

subsection \<open>Ranges, selections, line ranges\<close>

text \<open>
  \<open>Range\<close> and \<open>Selection\<close> are read through the four fields the command uses
  (\<open>startLineNumber\<close>, \<open>startColumn\<close>, \<open>endLineNumber\<close>, \<open>endColumn\<close>); the command builds
  both with \<open>new Range(a, b, c, d)\<close> and \<open>new Selection(a, b, c, d)\<close>, start before end:
  \<open>mkRange\<close> stores the four numbers as they are given.
\<close>

record Range =
  startLineNumber :: int
  startColumn :: int
  endLineNumber :: int
  endColumn :: int

type_synonym Selection = Range

definition mkRange :: "int \<Rightarrow> int \<Rightarrow> int \<Rightarrow> int \<Rightarrow> Range" where
  "mkRange sl sc el ec =
     \<lparr>startLineNumber = sl, startColumn = sc, endLineNumber = el, endColumn = ec\<rparr>"

text \<open>\<open>Selection.setEndPosition(line, column)\<close>, as the command uses it on a forward selection.\<close>

definition setEndPosition :: "Selection \<Rightarrow> int \<Rightarrow> int \<Rightarrow> Selection" where
  "setEndPosition r l c = mkRange (startLineNumber r) (startColumn r) l c"

text \<open>\<open>LineRange\<close>: the batch, \<open>[startLineNumber, endLineNumberExclusive)\<close>.\<close>

record LineRange =
  lr_startLineNumber :: int
  lr_endLineNumberExclusive :: int

subsection \<open>Strategy and enter actions\<close>

text \<open>
  Modelled from the spec: the enum \<open>EditorAutoIndentStrategy\<close> is declared outside src;
  section 3 of the spec gives it as the ordered severity None < Brackets < Advanced < Full.
\<close>

datatype EditorAutoIndentStrategy =
  AutoIndent_None | AutoIndent_Brackets | AutoIndent_Advanced | AutoIndent_Full

fun strategy_rank :: "EditorAutoIndentStrategy \<Rightarrow> nat" where
  "strategy_rank AutoIndent_None = 0"
| "strategy_rank AutoIndent_Brackets = 1"
| "strategy_rank AutoIndent_Advanced = 2"
| "strategy_rank AutoIndent_Full = 3"

datatype IndentAction = IndentAction_None | Indent | IndentOutdent | Outdent

record CompleteEnterAction =
  indentAction :: IndentAction
  appendText :: string
  indentation :: string

datatype IndentRulesSupport = IndentRulesSupportObject

subsection \<open>Errors\<close>

text \<open>
  The command itself throws nothing; a read of the buffer at a line that does not exist
  does (\<open>IllegalLineNumber\<close>), and so may the cursor-state helper (\<open>UnknownTrackedSelection\<close>).
  A constructor given no selection stores \<open>undefined\<close> and fails at its first field read
  (\<open>NoSelection\<close>).
\<close>

datatype error = IllegalLineNumber | IllegalRange | UnknownTrackedSelection | NoSelection

definition bind_res :: "error + 'a \<Rightarrow> ('a \<Rightarrow> error + 'b) \<Rightarrow> error + 'b" where
  "bind_res r f = (case r of Inl e \<Rightarrow> Inl e | Inr v \<Rightarrow> f v)"

subsection \<open>The text buffer, as the command reads it\<close>

text \<open>
  Modelled from the spec: the buffer read surface (\<open>ITextModel\<close>) is declared outside src;
  section 6 lists what the command reads: the line count, a line's text, a line's maximum
  column (text length + 1), the text within a range, the tab size, indent size and
  space/tab policy, the language id at a position and the cheap-to-tokenize check.
  A line number outside \<open>1..getLineCount\<close> is refused with \<open>IllegalLineNumber\<close>.
\<close>

record TextModel =
  lines :: "string list"
  tabSize :: int
  indentSize :: int
  insertSpaces :: bool
  isCheapToTokenize :: "int \<Rightarrow> bool"
  getLanguageIdAtPosition :: "int \<Rightarrow> int \<Rightarrow> string"

definition getLineCount :: "TextModel \<Rightarrow> int" where
  "getLineCount m = int (length (lines m))"

definition getLineContent :: "TextModel \<Rightarrow> int \<Rightarrow> error + string" where
  "getLineContent m n =
     (if 1 \<le> n \<and> n \<le> getLineCount m then Inr (lines m ! nat (n - 1))
      else Inl IllegalLineNumber)"

definition getLineMaxColumn :: "TextModel \<Rightarrow> int \<Rightarrow> error + int" where
  "getLineMaxColumn m n =
     (if 1 \<le> n \<and> n \<le> getLineCount m then Inr (int (length (lines m ! nat (n - 1))) + 1)
      else Inl IllegalLineNumber)"

fun joinLines :: "string list \<Rightarrow> string" where
  "joinLines [] = []"
| "joinLines [l] = l"
| "joinLines (l # k # ls) = l @ CHR 0x0A # joinLines (k # ls)"

fun splitLines :: "string \<Rightarrow> string list" where
  "splitLines [] = [[]]"
| "splitLines (c # cs) =
     (if c = CHR 0x0A then [] # splitLines cs
      else (case splitLines cs of [] \<Rightarrow> [[c]] | l # ls \<Rightarrow> (c # l) # ls))"

definition validPosition :: "string list \<Rightarrow> int \<Rightarrow> int \<Rightarrow> bool" where
  "validPosition ls l c =
     (1 \<le> l \<and> l \<le> int (length ls) \<and> 1 \<le> c \<and> c \<le> int (length (ls ! nat (l - 1))) + 1)"

definition offsetAt :: "string list \<Rightarrow> int \<Rightarrow> int \<Rightarrow> nat" where
  "offsetAt ls l c = sum_list (map (\<lambda>x. length x + 1) (take (nat (l - 1)) ls)) + nat (c - 1)"

definition validRange :: "string list \<Rightarrow> Range \<Rightarrow> bool" where
  "validRange ls r =
     (validPosition ls (startLineNumber r) (startColumn r) \<and>
      validPosition ls (endLineNumber r) (endColumn r) \<and>
      offsetAt ls (startLineNumber r) (startColumn r) \<le> offsetAt ls (endLineNumber r) (endColumn r))"

text \<open>
  Modelled from the spec: \<open>getValueInRange\<close> is outside src; section 6 has it return the
  text within an arbitrary range: the text between two positions of the buffer, lines
  joined by a line feed. The model answers for a range inside the buffer and refuses any
  other with \<open>IllegalRange\<close>.
\<close>

definition getValueInRange :: "TextModel \<Rightarrow> Range \<Rightarrow> error + string" where
  "getValueInRange m r =
     (if validRange (lines m) r then
        (let so = offsetAt (lines m) (startLineNumber r) (startColumn r);
             eo = offsetAt (lines m) (endLineNumber r) (endColumn r)
         in Inr (take (eo - so) (drop so (joinLines (lines m)))))
      else Inl IllegalRange)"

subsection \<open>String helpers\<close>

text \<open>
  Modelled from the spec: \<open>strings.getLeadingWhitespace\<close> and
  \<open>strings.lastNonWhitespaceIndex\<close> are declared outside src. Section 4.4 measures a line's
  leading whitespace (here: its longest prefix of spaces and tabs) and section 4.3 skips
  blank lines (here: lines with no character other than space and tab, index -1).
\<close>

definition isSpaceOrTab :: "char \<Rightarrow> bool" where
  "isSpaceOrTab c = (c = CHR '' '' \<or> c = CHR 0x09)"

definition getLeadingWhitespace :: "string \<Rightarrow> string" where
  "getLeadingWhitespace str = takeWhile isSpaceOrTab str"

fun lastNonWhitespaceIndex_from :: "string \<Rightarrow> int \<Rightarrow> int \<Rightarrow> int" where
  "lastNonWhitespaceIndex_from [] i acc = acc"
| "lastNonWhitespaceIndex_from (c # cs) i acc =
     lastNonWhitespaceIndex_from cs (i + 1) (if isSpaceOrTab c then acc else i)"

definition lastNonWhitespaceIndex :: "string \<Rightarrow> int" where
  "lastNonWhitespaceIndex str = lastNonWhitespaceIndex_from str 0 (- 1)"

text \<open>
  \<open>trimLeft\<close> is \<open>str.replace(/^\s+/, '')\<close>; \<open>\s\<close> on the characters a \<open>char\<close> can hold:
  tab, line feed, vertical tab, form feed, carriage return, space, no-break space.
\<close>

definition isRegexSpace :: "char \<Rightarrow> bool" where
  "isRegexSpace c =
     (c = CHR 0x09 \<or> c = CHR 0x0A \<or> c = CHR 0x0B \<or> c = CHR 0x0C \<or> c = CHR 0x0D \<or>
      c = CHR 0x20 \<or> c = CHR 0xA0)"

definition trimLeft :: "string \<Rightarrow> string" where
  "trimLeft str = dropWhile isRegexSpace str"

text \<open>\<open>String.prototype.indexOf\<close>: the first index at which the pattern starts, or -1.\<close>

fun indexOf_from :: "string \<Rightarrow> string \<Rightarrow> int \<Rightarrow> int" where
  "indexOf_from [] p i = (if p = [] then i else - 1)"
| "indexOf_from (c # cs) p i = (if prefix p (c # cs) then i else indexOf_from cs p (i + 1))"

definition indexOf :: "string \<Rightarrow> string \<Rightarrow> int" where
  "indexOf str p = indexOf_from str p 0"

subsection \<open>The edit operation builder\<close>

text \<open>
  \<open>IEditOperationBuilder\<close>: \<open>addEditOperation(range, text | null)\<close> appends an edit,
  \<open>trackSelection(selection)\<close> registers a selection and returns its token, a string that
  is opaque to the command. Which token the builder gives to its n-th tracked selection is
  the builder's own business (\<open>tokenOf\<close>): the builder of \<open>getEditOperation\<close> in
  \<open>src/vs/editor/test/browser/testCommand.ts\<close> answers the empty string every time.
\<close>

type_synonym token = string

record EditOperationBuilder =
  operations :: "(Range \<times> string option) list"
  trackedSelections :: "Selection list"
  tokenOf :: "nat \<Rightarrow> token"

text \<open>The builder of \<open>getEditOperation\<close> in testCommand.ts, before any call.\<close>

definition emptyBuilder :: EditOperationBuilder where
  "emptyBuilder = \<lparr>operations = [], trackedSelections = [], tokenOf = (\<lambda>n. [])\<rparr>"

definition addEditOperation :: "EditOperationBuilder \<Rightarrow> Range \<Rightarrow> string option \<Rightarrow> EditOperationBuilder" where
  "addEditOperation b r t = b\<lparr>operations := operations b @ [(r, t)]\<rparr>"

definition trackSelection :: "EditOperationBuilder \<Rightarrow> Selection \<Rightarrow> token \<times> EditOperationBuilder" where
  "trackSelection b s =
     (tokenOf b (length (trackedSelections b)), b\<lparr>trackedSelections := trackedSelections b @ [s]\<rparr>)"

subsection \<open>External collaborators\<close>

text \<open>
  The indentation oracle, the indent arithmetic and the language configuration registry are
  outside src; the command is verified for arbitrary ones. \<open>IIndentConverter\<close> and
  \<open>IVirtualModel\<close> are the two objects the command builds for the oracle; the virtual model's
  tokenization delegates to the live buffer, its line content is the function the command
  installs.
\<close>

record IndentConverter =
  shiftIndent :: "string \<Rightarrow> string"
  unshiftIndent :: "string \<Rightarrow> string"

record VirtualModel =
  vm_tokenization :: TextModel
  vm_getLineContent :: "int \<Rightarrow> error + string"

record Collaborators =
  ShiftCommand_shiftIndent :: "string \<Rightarrow> int \<Rightarrow> int \<Rightarrow> int \<Rightarrow> bool \<Rightarrow> string"
  ShiftCommand_unshiftIndent :: "string \<Rightarrow> int \<Rightarrow> int \<Rightarrow> int \<Rightarrow> bool \<Rightarrow> string"
  getSpaceCnt :: "string \<Rightarrow> int \<Rightarrow> int"
  generateIndent :: "int \<Rightarrow> int \<Rightarrow> bool \<Rightarrow> string"
  getEnterAction :: "EditorAutoIndentStrategy \<Rightarrow> TextModel \<Rightarrow> Range \<Rightarrow> CompleteEnterAction option"
  getGoodIndentForLine ::
    "EditorAutoIndentStrategy \<Rightarrow> VirtualModel \<Rightarrow> string \<Rightarrow> int \<Rightarrow> IndentConverter \<Rightarrow> string option"
  getIndentMetadata :: "TextModel \<Rightarrow> int \<Rightarrow> int option"
  DECREASE_MASK :: int
  indentRulesSupport :: "string \<Rightarrow> IndentRulesSupport option"

subsection \<open>The command\<close>

record MoveLinesCommand =
  selection :: Selection
  isMovingDown :: bool
  autoIndent :: EditorAutoIndentStrategy
  batch :: LineRange
  isFirstInBatch :: bool
  selectionId :: "token option"
  moveEndLineSelectionShrink :: bool

text \<open>The constructor: \<open>selections[0]\<close>, a null token, a cleared end-shrink flag.\<close>

fun new_MoveLinesCommand ::
  "Selection list \<Rightarrow> bool \<Rightarrow> EditorAutoIndentStrategy \<Rightarrow> LineRange \<Rightarrow> bool \<Rightarrow> error + MoveLinesCommand" where
  "new_MoveLinesCommand [] down ai b first = Inl NoSelection"
| "new_MoveLinesCommand (s # ss) down ai b first =
     Inr \<lparr>selection = s, isMovingDown = down, autoIndent = ai, batch = b,
          isFirstInBatch = first, selectionId = None, moveEndLineSelectionShrink = False\<rparr>"

definition buildIndentConverter :: "Collaborators \<Rightarrow> int \<Rightarrow> int \<Rightarrow> bool \<Rightarrow> IndentConverter" where
  "buildIndentConverter svc ts isz ins =
     \<lparr>shiftIndent = (\<lambda>ind. ShiftCommand_shiftIndent svc ind (int (length ind) + 1) ts isz ins),
      unshiftIndent = (\<lambda>ind. ShiftCommand_unshiftIndent svc ind (int (length ind) + 1) ts isz ins)\<rparr>"

text \<open>\<open>shouldAutoIndent\<close> (lines 1001-1021): four early returns, then true.\<close>

definition shouldAutoIndent :: "Collaborators \<Rightarrow> MoveLinesCommand \<Rightarrow> TextModel \<Rightarrow> Selection \<Rightarrow> bool" where
  "shouldAutoIndent svc cmd m sel =
     (if strategy_rank (autoIndent cmd) < strategy_rank AutoIndent_Full then False
      else if \<not> isCheapToTokenize m (startLineNumber sel) then False
      else
        (let languageAtSelectionStart = getLanguageIdAtPosition m (startLineNumber sel) 1;
             languageAtSelectionEnd = getLanguageIdAtPosition m (endLineNumber sel) 1
         in if languageAtSelectionStart \<noteq> languageAtSelectionEnd then False
            else if indentRulesSupport svc languageAtSelectionStart = None then False
            else True))"

text \<open>\<open>parseEnterResult\<close> (lines 909-937). The result is \<open>None\<close> for JavaScript's null.\<close>

definition enterPrefix :: "IndentConverter \<Rightarrow> CompleteEnterAction \<Rightarrow> string" where
  "enterPrefix conv enter =
     (if indentAction enter = IndentAction_None then indentation enter @ appendText enter
      else if indentAction enter = Indent then indentation enter @ appendText enter
      else if indentAction enter = IndentOutdent then indentation enter
      else if indentAction enter = Outdent then unshiftIndent conv (indentation enter) @ appendText enter
      else indentation enter)"

definition parseEnterResult ::
  "Collaborators \<Rightarrow> TextModel \<Rightarrow> IndentConverter \<Rightarrow> int \<Rightarrow> int \<Rightarrow> CompleteEnterAction option
     \<Rightarrow> error + int option" where
  "parseEnterResult svc m conv ts line enterOpt =
     (case enterOpt of
        None \<Rightarrow> Inr None
      | Some enter \<Rightarrow>
          bind_res (getLineContent m line) (\<lambda>movingLineText.
            if indexOf (trimLeft movingLineText) (trimLeft (enterPrefix conv enter)) \<ge> 0 then
              (let oldIndentation = getLeadingWhitespace movingLineText;
                   newIndentation0 = getLeadingWhitespace (enterPrefix conv enter);
                   newIndentation =
                     (case getIndentMetadata svc m line of
                        None \<Rightarrow> newIndentation0
                      | Some md \<Rightarrow>
                          if and md (DECREASE_MASK svc) \<noteq> 0 then unshiftIndent conv newIndentation0
                          else newIndentation0);
                   newSpaceCnt = getSpaceCnt svc newIndentation ts;
                   oldSpaceCnt = getSpaceCnt svc oldIndentation ts
               in Inr (Some (newSpaceCnt - oldSpaceCnt)))
            else Inr None))"

text \<open>
  The two upward scans for a non-blank line. \<open>matchEnterRuleMovingDown\<close> reads every line
  from the buffer; \<open>matchEnterRuleMoveingUp\<close> takes the text it was handed for \<open>prevLine\<close>.
\<close>

function validPrecedingLine_down :: "TextModel \<Rightarrow> int \<Rightarrow> error + int" where
  "validPrecedingLine_down m v =
     (if v \<ge> 1 then
        bind_res (getLineContent m v) (\<lambda>lineContent.
          if lastNonWhitespaceIndex lineContent \<ge> 0 then Inr v
          else validPrecedingLine_down m (v - 1))
      else Inr v)"
  by pat_completeness auto
termination
  by (relation "measure (\<lambda>(m, v). nat v)") auto

declare validPrecedingLine_down.simps [simp del]

function validPrecedingLine_up :: "TextModel \<Rightarrow> int \<Rightarrow> string \<Rightarrow> int \<Rightarrow> error + int" where
  "validPrecedingLine_up m prevLine prevLineText v =
     (if v \<ge> 1 then
        bind_res (if v = prevLine then Inr prevLineText else getLineContent m v) (\<lambda>lineContent.
          if lastNonWhitespaceIndex lineContent \<ge> 0 then Inr v
          else validPrecedingLine_up m prevLine prevLineText (v - 1))
      else Inr v)"
  by pat_completeness auto
termination
  by (relation "measure (\<lambda>(m, p, t, v). nat v)") auto

declare validPrecedingLine_up.simps [simp del]

definition enterAtLineEnd ::
  "Collaborators \<Rightarrow> MoveLinesCommand \<Rightarrow> TextModel \<Rightarrow> IndentConverter \<Rightarrow> int \<Rightarrow> int \<Rightarrow> int
     \<Rightarrow> error + int option" where
  "enterAtLineEnd svc cmd m conv ts line at =
     bind_res (getLineMaxColumn m at) (\<lambda>maxColumn.
       parseEnterResult svc m conv ts line
         (getEnterAction svc (autoIndent cmd) m (mkRange at maxColumn at maxColumn)))"

definition matchEnterRuleMovingDown ::
  "Collaborators \<Rightarrow> MoveLinesCommand \<Rightarrow> TextModel \<Rightarrow> IndentConverter \<Rightarrow> int \<Rightarrow> int \<Rightarrow> int \<Rightarrow> string
     \<Rightarrow> error + int option" where
  "matchEnterRuleMovingDown svc cmd m conv ts line nextLine nextLineText =
     (if lastNonWhitespaceIndex nextLineText \<ge> 0 then enterAtLineEnd svc cmd m conv ts line nextLine
      else
        bind_res (validPrecedingLine_down m (line - 1)) (\<lambda>validPrecedingLine.
          if validPrecedingLine < 1 \<or> line > getLineCount m then Inr None
          else enterAtLineEnd svc cmd m conv ts line validPrecedingLine))"

definition matchEnterRuleMoveingUp ::
  "Collaborators \<Rightarrow> MoveLinesCommand \<Rightarrow> TextModel \<Rightarrow> IndentConverter \<Rightarrow> int \<Rightarrow> int \<Rightarrow> int \<Rightarrow> string
     \<Rightarrow> error + int option" where
  "matchEnterRuleMoveingUp svc cmd m conv ts line prevLine prevLineText =
     bind_res (validPrecedingLine_up m prevLine prevLineText prevLine) (\<lambda>validPrecedingLine.
       if validPrecedingLine < 1 \<or> line > getLineCount m then Inr None
       else enterAtLineEnd svc cmd m conv ts line validPrecedingLine)"

text \<open>
  \<open>getIndentEditsOfMovingBlock\<close> (lines 1023-1042), on the pair of the command (its end-shrink
  flag) and the builder: the body of the loop for line \<open>i\<close> with content \<open>lineContent\<close>, then
  the loop over the selection's lines.
\<close>

definition getIndentEditsOfMovingBlock_body ::
  "Collaborators \<Rightarrow> Selection \<Rightarrow> int \<Rightarrow> bool \<Rightarrow> int \<Rightarrow> int \<Rightarrow> string
     \<Rightarrow> MoveLinesCommand \<times> EditOperationBuilder \<Rightarrow> MoveLinesCommand \<times> EditOperationBuilder" where
  "getIndentEditsOfMovingBlock_body svc s ts ins offset i lineContent st =
     (let originalIndent = getLeadingWhitespace lineContent;
          originalSpacesCnt = getSpaceCnt svc originalIndent ts;
          newSpacesCnt = originalSpacesCnt + offset;
          newIndent = generateIndent svc newSpacesCnt ts ins
      in if newIndent \<noteq> originalIndent then
           ((if i = endLineNumber s \<and> endColumn s \<le> int (length originalIndent) + 1 \<and> newIndent = []
             then (fst st)\<lparr>moveEndLineSelectionShrink := True\<rparr> else fst st),
            addEditOperation (snd st) (mkRange i 1 i (int (length originalIndent) + 1)) (Some newIndent))
         else st)"

function getIndentEditsOfMovingBlock_from ::
  "Collaborators \<Rightarrow> TextModel \<Rightarrow> Selection \<Rightarrow> int \<Rightarrow> bool \<Rightarrow> int \<Rightarrow> int
     \<Rightarrow> MoveLinesCommand \<times> EditOperationBuilder \<Rightarrow> error + MoveLinesCommand \<times> EditOperationBuilder" where
  "getIndentEditsOfMovingBlock_from svc m s ts ins offset i st =
     (if i \<le> endLineNumber s then
        bind_res (getLineContent m i) (\<lambda>lineContent.
          getIndentEditsOfMovingBlock_from svc m s ts ins offset (i + 1)
            (getIndentEditsOfMovingBlock_body svc s ts ins offset i lineContent st))
      else Inr st)"
  by pat_completeness auto
termination
  by (relation "measure (\<lambda>(svc, m, s, ts, ins, offset, i, st). nat (endLineNumber s + 1 - i))") auto

declare getIndentEditsOfMovingBlock_from.simps [simp del]

definition getIndentEditsOfMovingBlock ::
  "Collaborators \<Rightarrow> TextModel \<Rightarrow> Selection \<Rightarrow> int \<Rightarrow> bool \<Rightarrow> int
     \<Rightarrow> MoveLinesCommand \<times> EditOperationBuilder \<Rightarrow> error + MoveLinesCommand \<times> EditOperationBuilder" where
  "getIndentEditsOfMovingBlock svc m s ts ins offset st =
     getIndentEditsOfMovingBlock_from svc m s ts ins offset (startLineNumber s) st"

text \<open>
  The line-content function installed into the virtual model (lines 843-861), with the
  source's note: given a line number from before the change, return the line content after
  the change.
\<close>

definition virtualModel_getLineContent ::
  "TextModel \<Rightarrow> bool \<Rightarrow> int \<Rightarrow> int \<Rightarrow> int \<Rightarrow> int \<Rightarrow> int \<Rightarrow> error + string" where
  "virtualModel_getLineContent m down srcStartLine srcEndLine prevLine nextLine lineNumber =
     (if down then
        (if lineNumber = srcStartLine then getLineContent m nextLine
         else if lineNumber \<le> nextLine then getLineContent m (lineNumber + 1)
         else getLineContent m lineNumber)
      else
        (if lineNumber = srcEndLine then getLineContent m prevLine
         else if lineNumber \<ge> prevLine then getLineContent m (lineNumber - 1)
         else getLineContent m lineNumber))"

text \<open>
  The indent-rule fallback (lines 869-888): the body of the loop for line \<open>i\<close>, then the loop
  over the affected lines.
\<close>

definition indentRules_body ::
  "Collaborators \<Rightarrow> EditorAutoIndentStrategy \<Rightarrow> TextModel \<Rightarrow> VirtualModel \<Rightarrow> IndentConverter
     \<Rightarrow> Selection \<Rightarrow> int \<Rightarrow> bool \<Rightarrow> int
     \<Rightarrow> MoveLinesCommand \<times> EditOperationBuilder \<Rightarrow> error + MoveLinesCommand \<times> EditOperationBuilder" where
  "indentRules_body svc ai m vm conv s ts ins i st =
     (case getGoodIndentForLine svc ai vm (getLanguageIdAtPosition m i 1) i conv of
        None \<Rightarrow> Inr st
      | Some lineIndent \<Rightarrow>
          bind_res (vm_getLineContent vm i) (\<lambda>virtualContent.
            let oldIndent = getLeadingWhitespace virtualContent;
                newSpaceCnt = getSpaceCnt svc lineIndent ts;
                oldSpaceCnt = getSpaceCnt svc oldIndent ts
            in if newSpaceCnt \<noteq> oldSpaceCnt then
                 (let spaceCntOffset = newSpaceCnt - oldSpaceCnt
                  in getIndentEditsOfMovingBlock svc m s ts ins spaceCntOffset st)
               else Inr st))"

function indentRules_from ::
  "Collaborators \<Rightarrow> EditorAutoIndentStrategy \<Rightarrow> TextModel \<Rightarrow> VirtualModel \<Rightarrow> IndentConverter
     \<Rightarrow> Selection \<Rightarrow> int \<Rightarrow> bool \<Rightarrow> int \<Rightarrow> int
     \<Rightarrow> MoveLinesCommand \<times> EditOperationBuilder \<Rightarrow> error + MoveLinesCommand \<times> EditOperationBuilder" where
  "indentRules_from svc ai m vm conv s ts ins affectedEndLine i st =
     (if i \<le> affectedEndLine then
        bind_res (indentRules_body svc ai m vm conv s ts ins i st)
          (\<lambda>st'. indentRules_from svc ai m vm conv s ts ins affectedEndLine (i + 1) st')
      else Inr st)"
  by pat_completeness auto
termination
  by (relation "measure (\<lambda>(svc, ai, m, vm, conv, s, ts, ins, affectedEndLine, i, st).
        nat (affectedEndLine + 1 - i))") auto

declare indentRules_from.simps [simp del]

text \<open>
  The re-indentation of lines 817-890, entered when \<open>shouldAutoIndent\<close> holds: the enter
  rule first, the indent rules when no enter rule matched.
\<close>

definition reindentMovedLines ::
  "Collaborators \<Rightarrow> TextModel \<Rightarrow> IndentConverter \<Rightarrow> int \<Rightarrow> bool \<Rightarrow> string
     \<Rightarrow> MoveLinesCommand \<times> EditOperationBuilder \<Rightarrow> error + MoveLinesCommand \<times> EditOperationBuilder" where
  "reindentMovedLines svc m conv ts ins text st =
     (let cmd = fst st;
          s = selection cmd;
          srcStartLine = lr_startLineNumber (batch cmd);
          srcEndLine = lr_endLineNumberExclusive (batch cmd) - 1;
          prevLine = lr_startLineNumber (batch cmd) - 1;
          nextLine = lr_endLineNumberExclusive (batch cmd)
      in bind_res
           (if isMovingDown cmd
            then matchEnterRuleMovingDown svc cmd m conv ts srcStartLine nextLine text
            else matchEnterRuleMoveingUp svc cmd m conv ts srcStartLine prevLine text)
           (\<lambda>ret. case ret of
              Some r \<Rightarrow>
                (if r \<noteq> 0 then getIndentEditsOfMovingBlock svc m s ts ins r st else Inr st)
            | None \<Rightarrow>
                (let vm = \<lparr>vm_tokenization = m,
                           vm_getLineContent =
                             virtualModel_getLineContent m (isMovingDown cmd) srcStartLine srcEndLine
                               prevLine nextLine\<rparr>;
                     affectedStartLine = (if isMovingDown cmd then srcStartLine else prevLine);
                     affectedEndLine = (if isMovingDown cmd then nextLine else srcEndLine)
                 in indentRules_from svc (autoIndent cmd) m vm conv s ts ins affectedEndLine
                      affectedStartLine st)))"

text \<open>The body of \<open>if (this._isFirstInBatch)\<close> (lines 776-890).\<close>

definition firstInBatchEdits ::
  "Collaborators \<Rightarrow> TextModel \<Rightarrow> IndentConverter \<Rightarrow> int \<Rightarrow> bool
     \<Rightarrow> MoveLinesCommand \<times> EditOperationBuilder \<Rightarrow> error + MoveLinesCommand \<times> EditOperationBuilder" where
  "firstInBatchEdits svc m conv ts ins st =
     (let cmd = fst st;
          srcStartLine = lr_startLineNumber (batch cmd);
          srcEndLine = lr_endLineNumberExclusive (batch cmd) - 1
      in bind_res (getLineMaxColumn m srcEndLine) (\<lambda>srcEndLineLen.
         bind_res (getValueInRange m (mkRange srcStartLine 1 srcEndLine srcEndLineLen)) (\<lambda>text.
           let prevLine = lr_startLineNumber (batch cmd) - 1;
               nextLine = lr_endLineNumberExclusive (batch cmd)
           in bind_res
                (if isMovingDown cmd
                 then Inr (addEditOperation (snd st) (mkRange srcStartLine 1 nextLine 1) None)
                 else bind_res (getLineMaxColumn m prevLine) (\<lambda>prevLineLen.
                        Inr (addEditOperation (snd st)
                               (mkRange prevLine prevLineLen srcEndLine srcEndLineLen) None)))
                (\<lambda>b2.
                   let b3 =
                         (if isMovingDown cmd then
                            (let dstLine = lr_startLineNumber (batch cmd) - 1
                             in addEditOperation b2 (mkRange dstLine 1 dstLine 1) (Some (CHR 0x0A # text)))
                          else
                            (let dstLine = lr_endLineNumberExclusive (batch cmd)
                             in addEditOperation b2 (mkRange dstLine 1 dstLine 1) (Some (text @ [CHR 0x0A]))))
                   in if shouldAutoIndent svc cmd m (selection cmd)
                      then reindentMovedLines svc m conv ts ins text (cmd, b3)
                      else Inr (cmd, b3)))))"

text \<open>\<open>getEditOperations\<close> (lines 740-896).\<close>

definition getEditOperations ::
  "Collaborators \<Rightarrow> MoveLinesCommand \<Rightarrow> TextModel \<Rightarrow> EditOperationBuilder
     \<Rightarrow> error + MoveLinesCommand \<times> EditOperationBuilder" where
  "getEditOperations svc cmd m builder =
     (let modelLineCount = getLineCount m
      in if isMovingDown cmd \<and> lr_endLineNumberExclusive (batch cmd) - 1 = modelLineCount then
           (case trackSelection builder (selection cmd) of
              (tok, b1) \<Rightarrow> Inr (cmd\<lparr>selectionId := Some tok\<rparr>, b1))
         else if \<not> isMovingDown cmd \<and> lr_startLineNumber (batch cmd) = 1 then
           (case trackSelection builder (selection cmd) of
              (tok, b1) \<Rightarrow> Inr (cmd\<lparr>selectionId := Some tok\<rparr>, b1))
         else
           (let s = selection cmd;
                b1 = snd (trackSelection builder s);
                conv = buildIndentConverter svc (tabSize m) (indentSize m) (insertSpaces m)
            in if isFirstInBatch cmd
               then firstInBatchEdits svc m conv (tabSize m) (insertSpaces m) (cmd, b1)
               else Inr (cmd, addEditOperation b1 (mkRange 1 1 1 1) None)))"

text \<open>
  \<open>computeCursorState\<close> (lines 1044-1056). The helper resolves a token to a selection; the
  command hands it \<open>this._selectionId!\<close>, which JavaScript passes on as it is, null included.
\<close>

definition computeCursorState ::
  "MoveLinesCommand \<Rightarrow> TextModel \<Rightarrow> (token option \<Rightarrow> error + Selection) \<Rightarrow> error + Selection" where
  "computeCursorState cmd m getTrackedSelection =
     bind_res (getTrackedSelection (selectionId cmd)) (\<lambda>tracked.
       let result = (if moveEndLineSelectionShrink cmd \<and> startLineNumber tracked < endLineNumber tracked
                     then setEndPosition tracked (endLineNumber tracked) 2 else tracked);
           offset = (if isMovingDown cmd then 1 else - 1);
           result = selection cmd;
           result = mkRange (startLineNumber result + offset) (startColumn result)
                      (endLineNumber result + offset) (endColumn result)
       in Inr result)"

subsection \<open>Applying a transaction's edits\<close>

text \<open>
  Modelled from the spec: the transaction engine is outside src. Section 2 has it accept a
  list of non-overlapping (range, replacement text) edits and apply them as one atomic
  transaction: every range is read against the buffer as it was before the transaction.
  The edits are ordered by position and applied from the last to the first, so that no edit
  moves the range of another. A range outside the buffer, or two ranges that overlap, are
  refused.
\<close>

definition applyEdit :: "string list \<Rightarrow> Range \<times> string option \<Rightarrow> string list" where
  "applyEdit ls op =
     (let r = fst op;
          sl = nat (startLineNumber r - 1);
          el = nat (endLineNumber r - 1);
          mid = take (nat (startColumn r - 1)) (ls ! sl)
                @ (case snd op of None \<Rightarrow> [] | Some t \<Rightarrow> t)
                @ drop (nat (endColumn r - 1)) (ls ! el)
      in take sl ls @ splitLines mid @ drop (el + 1) ls)"

definition editStart :: "string list \<Rightarrow> Range \<times> string option \<Rightarrow> nat" where
  "editStart ls op = offsetAt ls (startLineNumber (fst op)) (startColumn (fst op))"

definition editEnd :: "string list \<Rightarrow> Range \<times> string option \<Rightarrow> nat" where
  "editEnd ls op = offsetAt ls (endLineNumber (fst op)) (endColumn (fst op))"

definition editLe :: "string list \<Rightarrow> Range \<times> string option \<Rightarrow> Range \<times> string option \<Rightarrow> bool" where
  "editLe ls a b =
     (editStart ls a < editStart ls b \<or> (editStart ls a = editStart ls b \<and> editEnd ls a \<le> editEnd ls b))"

fun insertEdit ::
  "string list \<Rightarrow> Range \<times> string option \<Rightarrow> (Range \<times> string option) list \<Rightarrow> (Range \<times> string option) list" where
  "insertEdit ls e [] = [e]"
| "insertEdit ls e (x # xs) = (if editLe ls e x then e # x # xs else x # insertEdit ls e xs)"

definition sortEdits :: "string list \<Rightarrow> (Range \<times> string option) list \<Rightarrow> (Range \<times> string option) list" where
  "sortEdits ls ops = foldr (insertEdit ls) ops []"

fun nonOverlapping :: "string list \<Rightarrow> (Range \<times> string option) list \<Rightarrow> bool" where
  "nonOverlapping ls [] = True"
| "nonOverlapping ls [x] = True"
| "nonOverlapping ls (x # y # r) = (editEnd ls x \<le> editStart ls y \<and> nonOverlapping ls (y # r))"

definition applyEdits :: "string list \<Rightarrow> (Range \<times> string option) list \<Rightarrow> string list option" where
  "applyEdits ls ops =
     (if list_all (\<lambda>op. validRange ls (fst op)) ops \<and> nonOverlapping ls (sortEdits ls ops)
      then Some (foldl applyEdit ls (rev (sortEdits ls ops)))
      else None)"

subsection \<open>Worked instances\<close>

text \<open>
  Modelled from the spec: \<open>indentUtils.getSpaceCnt\<close> and \<open>indentUtils.generateIndent\<close> are
  outside src. Section 6 gives \<open>spaceCount(indentString, tabSize)\<close> and
  \<open>generateIndent(spaceCount, tabSize, insertSpaces)\<close>; section 2 has them convert between a
  leading-whitespace string and its canonical space count at a tab width. They serve the
  worked instances only, and a count below zero gives no whitespace; the theorems on the
  command hold for any indent arithmetic.
\<close>

definition indentUtils_getSpaceCnt :: "string \<Rightarrow> int \<Rightarrow> int" where
  "indentUtils_getSpaceCnt str ts = sum_list (map (\<lambda>c. if c = CHR 0x09 then ts else 1) str)"

definition indentUtils_generateIndent :: "int \<Rightarrow> int \<Rightarrow> bool \<Rightarrow> string" where
  "indentUtils_generateIndent n ts ins =
     (let k = max 0 n
      in if ins then replicate (nat k) CHR '' ''
         else replicate (nat (k div ts)) CHR 0x09 @ replicate (nat (k mod ts)) CHR '' '')"

text \<open>
  A plain-text buffer (tab size 4, spaces, every line cheap to tokenize, one language), and
  collaborators whose oracle answers what it is given for every query.
\<close>

definition plainTextModel :: "string list \<Rightarrow> TextModel" where
  "plainTextModel ls =
     \<lparr>lines = ls, tabSize = 4, indentSize = 4, insertSpaces = True,
      isCheapToTokenize = (\<lambda>n. True), getLanguageIdAtPosition = (\<lambda>l c. ''plaintext'')\<rparr>"

definition fixedCollaborators ::
  "CompleteEnterAction option \<Rightarrow> IndentRulesSupport option \<Rightarrow> Collaborators" where
  "fixedCollaborators enter rules =
     \<lparr>ShiftCommand_shiftIndent = (\<lambda>ind c ts isz ins. ind @ replicate (nat isz) CHR '' ''),
      ShiftCommand_unshiftIndent = (\<lambda>ind c ts isz ins. take (length ind - nat isz) ind),
      getSpaceCnt = indentUtils_getSpaceCnt,
      generateIndent = indentUtils_generateIndent,
      getEnterAction = (\<lambda>ai m r. enter),
      getGoodIndentForLine = (\<lambda>ai vm lang i conv. None),
      getIndentMetadata = (\<lambda>m i. None),
      DECREASE_MASK = 2,
      indentRulesSupport = (\<lambda>lang. rules)\<rparr>"

definition moveCommand ::
  "Selection \<Rightarrow> bool \<Rightarrow> EditorAutoIndentStrategy \<Rightarrow> int \<Rightarrow> int \<Rightarrow> bool \<Rightarrow> MoveLinesCommand" where
  "moveCommand s down ai a b first =
     \<lparr>selection = s, isMovingDown = down, autoIndent = ai,
      batch = \<lparr>lr_startLineNumber = a, lr_endLineNumberExclusive = b\<rparr>,
      isFirstInBatch = first, selectionId = None, moveEndLineSelectionShrink = False\<rparr>"




subsection \<open>The claims' own vocabulary\<close>

text \<open>
  The predicted prefix of an enter action, in the words of section 4.3 of the spec:
  indentation + appendText for None and Indent, the indentation alone for IndentOutdent,
  the indentation unshifted by one level + appendText for Outdent. It is compared below
  with \<open>enterPrefix\<close>, which follows the source.
\<close>

definition predictedPrefix :: "IndentConverter \<Rightarrow> CompleteEnterAction \<Rightarrow> string" where
  "predictedPrefix conv enter =
     (case indentAction enter of
        IndentAction_None \<Rightarrow> indentation enter @ appendText enter
      | Indent \<Rightarrow> indentation enter @ appendText enter
      | IndentOutdent \<Rightarrow> indentation enter
      | Outdent \<Rightarrow> unshiftIndent conv (indentation enter) @ appendText enter)"

text \<open>
  The indentation edit of one line, in the words of section 4.4 of the spec: the whitespace
  regenerated from the line's space count plus the delta (no clamping), replacing column 1
  through old indent length + 1; no edit when the regenerated indent is the old one. It is
  compared below with the loop of \<open>getIndentEditsOfMovingBlock\<close>, which follows the source.
\<close>

definition regeneratedIndent :: "Collaborators \<Rightarrow> int \<Rightarrow> bool \<Rightarrow> int \<Rightarrow> string \<Rightarrow> string" where
  "regeneratedIndent svc ts ins offset lineContent =
     generateIndent svc (getSpaceCnt svc (getLeadingWhitespace lineContent) ts + offset) ts ins"

definition leadingWhitespaceEdit ::
  "Collaborators \<Rightarrow> TextModel \<Rightarrow> int \<Rightarrow> bool \<Rightarrow> int \<Rightarrow> int \<Rightarrow> (Range \<times> string option) list" where
  "leadingWhitespaceEdit svc m ts ins offset i =
     (let lineContent = lines m ! nat (i - 1);
          oldIndent = getLeadingWhitespace lineContent;
          newIndent = regeneratedIndent svc ts ins offset lineContent
      in if newIndent = oldIndent then []
         else [(mkRange i 1 i (int (length oldIndent) + 1), Some newIndent)])"

text \<open>
  What the re-indentation may do to the pair of command and builder: set the end-shrink
  flag and append edits, nothing else.
\<close>

definition onlyAddsEdits ::
  "MoveLinesCommand \<times> EditOperationBuilder \<Rightarrow> MoveLinesCommand \<times> EditOperationBuilder \<Rightarrow> bool" where
  "onlyAddsEdits st st' =
     (\<exists>x ops. st' = ((fst st)\<lparr>moveEndLineSelectionShrink := x\<rparr>,
                      (snd st)\<lparr>operations := operations (snd st) @ ops\<rparr>))"

text \<open>The two boundary guards at the head of \<open>getEditOperations\<close> (lines 745 and 751).\<close>

definition atDocumentBoundary :: "MoveLinesCommand \<Rightarrow> TextModel \<Rightarrow> bool" where
  "atDocumentBoundary cmd m =
     ((isMovingDown cmd \<and> lr_endLineNumberExclusive (batch cmd) - 1 = getLineCount m) \<or>
      (\<not> isMovingDown cmd \<and> lr_startLineNumber (batch cmd) = 1))"

subsection \<open>The edit list of a batch\<close>

text \<open>
  Modelled from the spec: the engine that runs the commands of one user action is outside
  src. Sections 4.1 and 5 have the command instances of a batch take part in one
  transaction, whose edit list is made of the edits of every instance. Here the instances
  add their edits to one builder, one after the other.
\<close>

fun getEditOperations_batch ::
  "Collaborators \<Rightarrow> MoveLinesCommand list \<Rightarrow> TextModel \<Rightarrow> EditOperationBuilder
     \<Rightarrow> error + MoveLinesCommand list \<times> EditOperationBuilder" where
  "getEditOperations_batch svc [] m b = Inr ([], b)"
| "getEditOperations_batch svc (c # cs) m b =
     bind_res (getEditOperations svc c m b) (\<lambda>st.
       bind_res (getEditOperations_batch svc cs m (snd st)) (\<lambda>rest.
         Inr (fst st # fst rest, snd rest)))"

text \<open>
  Two edits are apart when one ends where or before the other starts; a list of edits is
  apart when any two of its entries are.
\<close>

definition editsApart :: "string list \<Rightarrow> Range \<times> string option \<Rightarrow> Range \<times> string option \<Rightarrow> bool" where
  "editsApart ls a b = (editEnd ls a \<le> editStart ls b \<or> editEnd ls b \<le> editStart ls a)"

fun allApart :: "string list \<Rightarrow> (Range \<times> string option) list \<Rightarrow> bool" where
  "allApart ls [] = True"
| "allApart ls (x # xs) = (list_all (editsApart ls x) xs \<and> allApart ls xs)"

section \<open>Properties\<close>

subsection \<open>Evaluation and helper lemmas\<close>

lemmas eval_defs = getEditOperations_def firstInBatchEdits_def reindentMovedLines_def
  matchEnterRuleMovingDown_def matchEnterRuleMoveingUp_def enterAtLineEnd_def parseEnterResult_def
  enterPrefix_def getIndentEditsOfMovingBlock_def getIndentEditsOfMovingBlock_body_def
  getIndentEditsOfMovingBlock_from.simps indentRules_from.simps indentRules_body_def
  validPrecedingLine_down.simps validPrecedingLine_up.simps
  getLineCount_def getLineMaxColumn_def
  getLineContent_def getValueInRange_def validRange_def validPosition_def offsetAt_def
  trackSelection_def addEditOperation_def emptyBuilder_def plainTextModel_def moveCommand_def
  fixedCollaborators_def shouldAutoIndent_def buildIndentConverter_def bind_res_def mkRange_def
  indentUtils_getSpaceCnt_def indentUtils_generateIndent_def getLeadingWhitespace_def
  isSpaceOrTab_def lastNonWhitespaceIndex_def trimLeft_def isRegexSpace_def indexOf_def
  computeCursorState_def setEndPosition_def virtualModel_getLineContent_def
  Let_def

lemmas apply_defs = applyEdits_def applyEdit_def sortEdits_def editLe_def editStart_def editEnd_def
  validRange_def validPosition_def offsetAt_def mkRange_def Let_def

lemma bind_res_Inl [simp]: "bind_res (Inl e) f = Inl e"
  by (simp add: bind_res_def)

lemma bind_res_Inr [simp]: "bind_res (Inr v) f = f v"
  by (simp add: bind_res_def)

lemma bind_res_eq_Inr: "bind_res r f = Inr y \<Longrightarrow> \<exists>v. r = Inr v \<and> f v = Inr y"
  by (cases r) simp_all

lemma indexOf_from_sublist: "0 \<le> i \<Longrightarrow> (0 \<le> indexOf_from str p i) = sublist p str"
proof (induction str arbitrary: i)
  case Nil
  then show ?case by simp
next
  case (Cons c cs)
  show ?case
  proof (cases "prefix p (c # cs)")
    case True
    with Cons.prems show ?thesis by (simp add: sublist_Cons_right)
  next
    case False
    with Cons.IH[of "i + 1"] Cons.prems show ?thesis by (simp add: sublist_Cons_right)
  qed
qed

lemma indexOf_sublist: "(indexOf str p \<ge> 0) = sublist p str"
  by (simp add: indexOf_def indexOf_from_sublist)

lemma enterPrefix_predicted: "enterPrefix conv enter = predictedPrefix conv enter"
  by (cases "indentAction enter") (simp_all add: enterPrefix_def predictedPrefix_def)

lemma splitLines_single: "CHR 0x0A \<notin> set str \<Longrightarrow> splitLines str = [str]"
  by (induction str) auto

subsection \<open>C1: the worked example of moving a line down\<close>

text \<open>
  Claim C1: for the lines "if (x) {", "  foo();", "}", "bar();" and a selection on line 2,
  moving down with auto-indent disabled yields "if (x) {", "}", "  foo();", "bar();", and
  the final selection is on line 3 with the original columns.

  The command removes (2,1)-(3,1) and inserts a line feed followed by "  foo();" at (1,1):
  the destination line is \<open>startLineNumber - 1\<close>, the line above the block. Applied to
  the buffer, the edits give "", "  foo();if (x) {", "}", "bar();", which is not the
  claimed result. The selection is as claimed, line 3 with columns 3 and 5, whenever the
  helper answers for the null token it is handed.
\<close>

theorem move_down_example_C1:
  "getEditOperations (fixedCollaborators None None)
      (moveCommand (mkRange 2 3 2 5) True AutoIndent_None 2 3 True)
      (plainTextModel [''if (x) {'', ''  foo();'', ''}'', ''bar();'']) emptyBuilder
    = Inr (moveCommand (mkRange 2 3 2 5) True AutoIndent_None 2 3 True,
           \<lparr>operations = [(mkRange 2 1 3 1, None), (mkRange 1 1 1 1, Some (CHR 0x0A # ''  foo();''))],
            trackedSelections = [mkRange 2 3 2 5], tokenOf = (\<lambda>n. [])\<rparr>) \<and>
   applyEdits [''if (x) {'', ''  foo();'', ''}'', ''bar();'']
       [(mkRange 2 1 3 1, None), (mkRange 1 1 1 1, Some (CHR 0x0A # ''  foo();''))]
     = Some ['''', ''  foo();if (x) {'', ''}'', ''bar();''] \<and>
   ['''', ''  foo();if (x) {'', ''}'', ''bar();''] \<noteq> [''if (x) {'', ''}'', ''  foo();'', ''bar();''] \<and>
   (\<forall>h. computeCursorState (moveCommand (mkRange 2 3 2 5) True AutoIndent_None 2 3 True)
          (plainTextModel [''if (x) {'', ''  foo();'', ''}'', ''bar();'']) h
        = bind_res (h None) (\<lambda>tracked. Inr (mkRange 3 3 3 5)))"
proof (intro conjI)
  show "getEditOperations (fixedCollaborators None None)
      (moveCommand (mkRange 2 3 2 5) True AutoIndent_None 2 3 True)
      (plainTextModel [''if (x) {'', ''  foo();'', ''}'', ''bar();'']) emptyBuilder
    = Inr (moveCommand (mkRange 2 3 2 5) True AutoIndent_None 2 3 True,
           \<lparr>operations = [(mkRange 2 1 3 1, None), (mkRange 1 1 1 1, Some (CHR 0x0A # ''  foo();''))],
            trackedSelections = [mkRange 2 3 2 5], tokenOf = (\<lambda>n. [])\<rparr>)"
    by (simp add: eval_defs)
  show "applyEdits [''if (x) {'', ''  foo();'', ''}'', ''bar();'']
       [(mkRange 2 1 3 1, None), (mkRange 1 1 1 1, Some (CHR 0x0A # ''  foo();''))]
     = Some ['''', ''  foo();if (x) {'', ''}'', ''bar();'']"
    by (simp add: apply_defs)
  show "['''', ''  foo();if (x) {'', ''}'', ''bar();''] \<noteq> [''if (x) {'', ''}'', ''  foo();'', ''bar();'']"
    by simp
  show "\<forall>h. computeCursorState (moveCommand (mkRange 2 3 2 5) True AutoIndent_None 2 3 True)
          (plainTextModel [''if (x) {'', ''  foo();'', ''}'', ''bar();'']) h
        = bind_res (h None) (\<lambda>tracked. Inr (mkRange 3 3 3 5))"
    by (simp add: eval_defs)
qed

subsection \<open>C2: moving down, then up\<close>

text \<open>
  Claim C2: with auto-indent disabled, for a block not touching the document boundary, the
  edits of a move down followed by the edits of a move up restore the original text.

  On the lines "a", "b", "c", "d" with the block on line 2, the move down gives
  "", "ba", "c", "d" (the same misplaced insertion as in C1). The move up of the block, now
  on line 3, removes the line feed before "c" together with "c" and inserts "c" and a line
  feed at (4,1), the line below the block: the text stays "", "ba", "c", "d". The move up
  of lines 2..2 leaves it there as well. The original text is not restored.
\<close>

theorem move_down_then_up_C2:
  "getEditOperations (fixedCollaborators None None)
      (moveCommand (mkRange 2 1 2 1) True AutoIndent_None 2 3 True)
      (plainTextModel [''a'', ''b'', ''c'', ''d'']) emptyBuilder
    = Inr (moveCommand (mkRange 2 1 2 1) True AutoIndent_None 2 3 True,
           \<lparr>operations = [(mkRange 2 1 3 1, None), (mkRange 1 1 1 1, Some (CHR 0x0A # ''b''))],
            trackedSelections = [mkRange 2 1 2 1], tokenOf = (\<lambda>n. [])\<rparr>) \<and>
   applyEdits [''a'', ''b'', ''c'', ''d'']
       [(mkRange 2 1 3 1, None), (mkRange 1 1 1 1, Some (CHR 0x0A # ''b''))]
     = Some ['''', ''ba'', ''c'', ''d''] \<and>
   getEditOperations (fixedCollaborators None None)
      (moveCommand (mkRange 3 1 3 1) False AutoIndent_None 3 4 True)
      (plainTextModel ['''', ''ba'', ''c'', ''d'']) emptyBuilder
    = Inr (moveCommand (mkRange 3 1 3 1) False AutoIndent_None 3 4 True,
           \<lparr>operations = [(mkRange 2 3 3 2, None), (mkRange 4 1 4 1, Some (''c'' @ [CHR 0x0A]))],
            trackedSelections = [mkRange 3 1 3 1], tokenOf = (\<lambda>n. [])\<rparr>) \<and>
   applyEdits ['''', ''ba'', ''c'', ''d'']
       [(mkRange 2 3 3 2, None), (mkRange 4 1 4 1, Some (''c'' @ [CHR 0x0A]))]
     = Some ['''', ''ba'', ''c'', ''d''] \<and>
   getEditOperations (fixedCollaborators None None)
      (moveCommand (mkRange 2 1 2 1) False AutoIndent_None 2 3 True)
      (plainTextModel ['''', ''ba'', ''c'', ''d'']) emptyBuilder
    = Inr (moveCommand (mkRange 2 1 2 1) False AutoIndent_None 2 3 True,
           \<lparr>operations = [(mkRange 1 1 2 3, None), (mkRange 3 1 3 1, Some (''ba'' @ [CHR 0x0A]))],
            trackedSelections = [mkRange 2 1 2 1], tokenOf = (\<lambda>n. [])\<rparr>) \<and>
   applyEdits ['''', ''ba'', ''c'', ''d'']
       [(mkRange 1 1 2 3, None), (mkRange 3 1 3 1, Some (''ba'' @ [CHR 0x0A]))]
     = Some ['''', ''ba'', ''c'', ''d''] \<and>
   ['''', ''ba'', ''c'', ''d''] \<noteq> [''a'', ''b'', ''c'', ''d'']"
proof (intro conjI)
  show "getEditOperations (fixedCollaborators None None)
      (moveCommand (mkRange 2 1 2 1) True AutoIndent_None 2 3 True)
      (plainTextModel [''a'', ''b'', ''c'', ''d'']) emptyBuilder
    = Inr (moveCommand (mkRange 2 1 2 1) True AutoIndent_None 2 3 True,
           \<lparr>operations = [(mkRange 2 1 3 1, None), (mkRange 1 1 1 1, Some (CHR 0x0A # ''b''))],
            trackedSelections = [mkRange 2 1 2 1], tokenOf = (\<lambda>n. [])\<rparr>)"
    by (simp add: eval_defs)
  show "applyEdits [''a'', ''b'', ''c'', ''d'']
       [(mkRange 2 1 3 1, None), (mkRange 1 1 1 1, Some (CHR 0x0A # ''b''))]
     = Some ['''', ''ba'', ''c'', ''d'']"
    by (simp add: apply_defs)
  show "getEditOperations (fixedCollaborators None None)
      (moveCommand (mkRange 3 1 3 1) False AutoIndent_None 3 4 True)
      (plainTextModel ['''', ''ba'', ''c'', ''d'']) emptyBuilder
    = Inr (moveCommand (mkRange 3 1 3 1) False AutoIndent_None 3 4 True,
           \<lparr>operations = [(mkRange 2 3 3 2, None), (mkRange 4 1 4 1, Some (''c'' @ [CHR 0x0A]))],
            trackedSelections = [mkRange 3 1 3 1], tokenOf = (\<lambda>n. [])\<rparr>)"
    by (simp add: eval_defs)
  show "applyEdits ['''', ''ba'', ''c'', ''d'']
       [(mkRange 2 3 3 2, None), (mkRange 4 1 4 1, Some (''c'' @ [CHR 0x0A]))]
     = Some ['''', ''ba'', ''c'', ''d'']"
    by (simp add: apply_defs)
  show "getEditOperations (fixedCollaborators None None)
      (moveCommand (mkRange 2 1 2 1) False AutoIndent_None 2 3 True)
      (plainTextModel ['''', ''ba'', ''c'', ''d'']) emptyBuilder
    = Inr (moveCommand (mkRange 2 1 2 1) False AutoIndent_None 2 3 True,
           \<lparr>operations = [(mkRange 1 1 2 3, None), (mkRange 3 1 3 1, Some (''ba'' @ [CHR 0x0A]))],
            trackedSelections = [mkRange 2 1 2 1], tokenOf = (\<lambda>n. [])\<rparr>)"
    by (simp add: eval_defs)
  show "applyEdits ['''', ''ba'', ''c'', ''d'']
       [(mkRange 1 1 2 3, None), (mkRange 3 1 3 1, Some (''ba'' @ [CHR 0x0A]))]
     = Some ['''', ''ba'', ''c'', ''d'']"
    by (simp add: apply_defs)
  show "['''', ''ba'', ''c'', ''d''] \<noteq> [''a'', ''b'', ''c'', ''d'']"
    by simp
qed

subsection \<open>C3: the document boundary\<close>




subsection \<open>C7: the auto-indent gate\<close>

text \<open>
  Claim C7: \<open>shouldAutoIndent\<close> returns true if and only if the strategy is at least Full, the
  selection's start line is cheap to tokenize, the language id at the start line equals
  the one at the end line, and that language has a non-null indent-rules support object.
\<close>

theorem shouldAutoIndent_iff_C7:
  "shouldAutoIndent svc cmd m sel =
     (strategy_rank (autoIndent cmd) \<ge> strategy_rank AutoIndent_Full \<and>
      isCheapToTokenize m (startLineNumber sel) \<and>
      getLanguageIdAtPosition m (startLineNumber sel) 1 = getLanguageIdAtPosition m (endLineNumber sel) 1 \<and>
      indentRulesSupport svc (getLanguageIdAtPosition m (startLineNumber sel) 1) \<noteq> None)"
  by (auto simp: shouldAutoIndent_def Let_def)

subsection \<open>C8: reading the enter action\<close>

text \<open>
  Claim C8, as amended: \<open>parseEnterResult\<close> returns a space-count delta exactly when the
  enter action is non-null and the moving line's trimmed content contains the trimmed
  predicted prefix somewhere (\<open>indexOf(...) >= 0\<close>, not only at its start), and null
  otherwise; the predicted prefix is indentation + appendText for None and Indent, the
  indentation alone for IndentOutdent, the unshifted indentation + appendText for Outdent.
  The delta is the space count of the prefix's leading whitespace (unshifted once more when
  the line's indent metadata has the decrease bit) minus that of the line's.
\<close>

theorem parseEnterResult_contains_prefix_C8:
  assumes "getLineContent m line = Inr movingLineText"
  shows "parseEnterResult svc m conv ts line None = Inr None \<and>
         parseEnterResult svc m conv ts line (Some enter) =
           Inr (if sublist (trimLeft (predictedPrefix conv enter)) (trimLeft movingLineText)
                then Some (getSpaceCnt svc
                             (case getIndentMetadata svc m line of
                                None \<Rightarrow> getLeadingWhitespace (predictedPrefix conv enter)
                              | Some md \<Rightarrow>
                                  if and md (DECREASE_MASK svc) \<noteq> 0
                                  then unshiftIndent conv (getLeadingWhitespace (predictedPrefix conv enter))
                                  else getLeadingWhitespace (predictedPrefix conv enter)) ts
                           - getSpaceCnt svc (getLeadingWhitespace movingLineText) ts)
                else None)"
  using assms
  by (simp add: parseEnterResult_def indexOf_sublist enterPrefix_predicted Let_def)

theorem parseEnterResult_contains_prefix_C8_witness:
  "getLineContent (plainTextModel [''  * b'']) 1 = Inr ''  * b'' \<and>
   parseEnterResult (fixedCollaborators None None) (plainTextModel [''  * b''])
     (buildIndentConverter (fixedCollaborators None None) 4 4 True) 4 1 None = Inr None \<and>
   parseEnterResult (fixedCollaborators None None) (plainTextModel [''  * b''])
     (buildIndentConverter (fixedCollaborators None None) 4 4 True) 4 1
     (Some \<lparr>indentAction = IndentAction_None, appendText = ''* '', indentation = ''    ''\<rparr>) = Inr (Some 2)"
proof -
  have h: "getLineContent (plainTextModel [''  * b'']) 1 = Inr ''  * b''"
    by (simp add: getLineContent_def getLineCount_def plainTextModel_def)
  have p: "predictedPrefix (buildIndentConverter (fixedCollaborators None None) 4 4 True)
             \<lparr>indentAction = IndentAction_None, appendText = ''* '', indentation = ''    ''\<rparr> = ''    * ''"
    by (simp add: predictedPrefix_def)
  have s: "sublist (trimLeft ''    * '') (trimLeft ''  * b'')"
    by (simp add: trimLeft_def isRegexSpace_def sublist_code)
  have md: "getIndentMetadata (fixedCollaborators None None) (plainTextModel [''  * b'']) 1 = None"
    by (simp add: fixedCollaborators_def)
  have d: "getSpaceCnt (fixedCollaborators None None) (getLeadingWhitespace ''    * '') 4
           - getSpaceCnt (fixedCollaborators None None) (getLeadingWhitespace ''  * b'') 4 = 2"
    by (simp add: fixedCollaborators_def indentUtils_getSpaceCnt_def getLeadingWhitespace_def isSpaceOrTab_def)
  from parseEnterResult_contains_prefix_C8[OF h, of "fixedCollaborators None None"
      "buildIndentConverter (fixedCollaborators None None) 4 4 True" 4
      "\<lparr>indentAction = IndentAction_None, appendText = ''* '', indentation = ''    ''\<rparr>"]
  show ?thesis using h by (simp only: p s md d if_True option.case)
qed

text \<open>
  The claim as stated fails: the trimmed line "a * b" does not begin with the trimmed
  prefix "* ", and a delta (0) is returned.
\<close>

theorem parseEnterResult_prefix_counterexample_C8:
  "\<not> prefix (trimLeft (enterPrefix (buildIndentConverter (fixedCollaborators None None) 4 4 True)
                   \<lparr>indentAction = IndentAction_None, appendText = ''* '', indentation = ''''\<rparr>))
               (trimLeft ''a * b'') \<and>
   parseEnterResult (fixedCollaborators None None) (plainTextModel [''a * b''])
     (buildIndentConverter (fixedCollaborators None None) 4 4 True) 4 1
     (Some \<lparr>indentAction = IndentAction_None, appendText = ''* '', indentation = ''''\<rparr>) = Inr (Some 0)"
  by (simp add: eval_defs)

subsection \<open>C9: the indentation edits of the moving block\<close>

lemma body_snd:
  "snd (getIndentEditsOfMovingBlock_body svc s ts ins offset i (lines m ! nat (i - 1)) st) =
     (snd st)\<lparr>operations := operations (snd st) @ leadingWhitespaceEdit svc m ts ins offset i\<rparr>"
  by (simp add: getIndentEditsOfMovingBlock_body_def leadingWhitespaceEdit_def regeneratedIndent_def
      addEditOperation_def Let_def)

lemma indentEdits_from_ops:
  "1 \<le> i \<Longrightarrow> endLineNumber s \<le> getLineCount m \<Longrightarrow>
   \<exists>cmd'. getIndentEditsOfMovingBlock_from svc m s ts ins offset i st =
     Inr (cmd', (snd st)\<lparr>operations := operations (snd st) @
            concat (map (leadingWhitespaceEdit svc m ts ins offset) [i..endLineNumber s])\<rparr>)"
proof (induction svc m s ts ins offset i st rule: getIndentEditsOfMovingBlock_from.induct)
  case (1 svc m s ts ins offset i st)
  show ?case
  proof (cases "i \<le> endLineNumber s")
    case False
    then have "getIndentEditsOfMovingBlock_from svc m s ts ins offset i st = Inr st"
      by (simp add: getIndentEditsOfMovingBlock_from.simps)
    moreover from False have "[i..endLineNumber s] = []" by simp
    ultimately show ?thesis by (cases st) simp
  next
    case True
    let ?lc = "lines m ! nat (i - 1)"
    let ?st = "getIndentEditsOfMovingBlock_body svc s ts ins offset i ?lc st"
    from True "1.prems" have lc: "getLineContent m i = Inr ?lc"
      by (simp add: getLineContent_def)
    from "1.prems" have i1: "1 \<le> i + 1" by simp
    from "1.IH"[OF True i1 "1.prems"(2), of ?lc] obtain cmd' where
      ih: "getIndentEditsOfMovingBlock_from svc m s ts ins offset (i + 1) ?st =
             Inr (cmd', (snd ?st)\<lparr>operations := operations (snd ?st) @
                concat (map (leadingWhitespaceEdit svc m ts ins offset) [i + 1..endLineNumber s])\<rparr>)"
      by blast
    have unfold: "getIndentEditsOfMovingBlock_from svc m s ts ins offset i st =
        getIndentEditsOfMovingBlock_from svc m s ts ins offset (i + 1) ?st"
      using True lc by (subst getIndentEditsOfMovingBlock_from.simps) simp
    from True have up: "[i..endLineNumber s] = i # [i + 1..endLineNumber s]"
      by (simp add: upto_rec1)
    show ?thesis
      unfolding unfold ih up by (simp add: body_snd)
  qed
qed

lemma leadingWhitespaceEdit_effect:
  assumes "1 \<le> i" and "i \<le> getLineCount m"
    and "CHR 0x0A \<notin> set (regeneratedIndent svc ts ins offset (lines m ! nat (i - 1)) @ lines m ! nat (i - 1))"
  shows "foldl applyEdit (lines m) (leadingWhitespaceEdit svc m ts ins offset i) =
           (lines m)[nat (i - 1) :=
              regeneratedIndent svc ts ins offset (lines m ! nat (i - 1))
              @ dropWhile isSpaceOrTab (lines m ! nat (i - 1))]"
proof -
  let ?lc = "lines m ! nat (i - 1)"
  let ?new = "regeneratedIndent svc ts ins offset ?lc"
  from assms have lt: "nat (i - 1) < length (lines m)" by (simp add: getLineCount_def)
  show ?thesis
  proof (cases "?new = getLeadingWhitespace ?lc")
    case True
    then have "?new @ dropWhile isSpaceOrTab ?lc = ?lc"
      by (simp add: getLeadingWhitespace_def)
    with True show ?thesis by (simp add: leadingWhitespaceEdit_def Let_def)
  next
    case False
    have nl: "CHR 0x0A \<notin> set (?new @ dropWhile isSpaceOrTab ?lc)"
      using assms(3) set_dropWhileD by fastforce
    have dr: "drop (length (takeWhile isSpaceOrTab ?lc)) ?lc = dropWhile isSpaceOrTab ?lc"
      by (simp add: dropWhile_eq_drop)
    have suc: "Suc (nat (i - 1)) = nat i" using assms(1) by simp
    from False lt show ?thesis
      by (simp add: leadingWhitespaceEdit_def Let_def applyEdit_def mkRange_def splitLines_single[OF nl]
          getLeadingWhitespace_def dr upd_conv_take_nth_drop suc)
  qed
qed

text \<open>
  Claim C9: for each line of the selection's span, the edit emitted by
  \<open>getIndentEditsOfMovingBlock\<close> replaces exactly the line's old leading whitespace (column 1
  through old indent length + 1) with whitespace regenerated from the line's space count
  plus the delta, with no clamping at zero, and modifies no other part of the line; a line
  whose regenerated indent equals its existing indent receives no edit.

  For a selection inside the buffer the loop returns, and the edits it appends are those
  of \<open>leadingWhitespaceEdit\<close>, line by line in order. Applying the edits of line \<open>i\<close> (none,
  or the one) to the buffer changes line \<open>i\<close> only, to the regenerated indent followed by
  what stood after the old leading whitespace (for a line and an indent free of line feeds).
\<close>

theorem indent_edits_of_moving_block_C9:
  assumes "1 \<le> startLineNumber s" and "endLineNumber s \<le> getLineCount m"
  shows "(\<exists>cmd'. getIndentEditsOfMovingBlock svc m s ts ins offset (cmd, b) =
            Inr (cmd', b\<lparr>operations := operations b @
                   concat (map (leadingWhitespaceEdit svc m ts ins offset)
                             [startLineNumber s..endLineNumber s])\<rparr>)) \<and>
         (\<forall>i. startLineNumber s \<le> i \<and> i \<le> endLineNumber s \<and>
               CHR 0x0A \<notin> set (regeneratedIndent svc ts ins offset (lines m ! nat (i - 1))
                                 @ lines m ! nat (i - 1)) \<longrightarrow>
              foldl applyEdit (lines m) (leadingWhitespaceEdit svc m ts ins offset i) =
                (lines m)[nat (i - 1) :=
                   regeneratedIndent svc ts ins offset (lines m ! nat (i - 1))
                   @ dropWhile isSpaceOrTab (lines m ! nat (i - 1))])"
proof (intro conjI allI impI)
  show "\<exists>cmd'. getIndentEditsOfMovingBlock svc m s ts ins offset (cmd, b) =
            Inr (cmd', b\<lparr>operations := operations b @
                   concat (map (leadingWhitespaceEdit svc m ts ins offset)
                             [startLineNumber s..endLineNumber s])\<rparr>)"
    using indentEdits_from_ops[OF assms, of svc ts ins offset "(cmd, b)"]
    by (simp add: getIndentEditsOfMovingBlock_def)
next
  fix i
  assume h: "startLineNumber s \<le> i \<and> i \<le> endLineNumber s \<and>
               CHR 0x0A \<notin> set (regeneratedIndent svc ts ins offset (lines m ! nat (i - 1))
                                 @ lines m ! nat (i - 1))"
  with assms have "1 \<le> i" "i \<le> getLineCount m" by simp_all
  with h show "foldl applyEdit (lines m) (leadingWhitespaceEdit svc m ts ins offset i) =
                (lines m)[nat (i - 1) :=
                   regeneratedIndent svc ts ins offset (lines m ! nat (i - 1))
                   @ dropWhile isSpaceOrTab (lines m ! nat (i - 1))]"
    by (intro leadingWhitespaceEdit_effect) simp_all
qed

theorem indent_edits_of_moving_block_C9_witness:
  "1 \<le> startLineNumber (mkRange 1 1 2 3) \<and>
   endLineNumber (mkRange 1 1 2 3) \<le> getLineCount (plainTextModel [''  x'', ''y'', ''z'']) \<and>
   (\<exists>cmd'. getIndentEditsOfMovingBlock (fixedCollaborators None None)
             (plainTextModel [''  x'', ''y'', ''z'']) (mkRange 1 1 2 3) 4 True 0
             (moveCommand (mkRange 1 1 2 3) True AutoIndent_Full 1 3 True, emptyBuilder) =
      Inr (cmd', emptyBuilder)) \<and>
   (\<exists>cmd'. getIndentEditsOfMovingBlock (fixedCollaborators None None)
             (plainTextModel [''  x'', ''y'', ''z'']) (mkRange 1 1 2 3) 4 True 2
             (moveCommand (mkRange 1 1 2 3) True AutoIndent_Full 1 3 True, emptyBuilder) =
      Inr (cmd', \<lparr>operations = [(mkRange 1 1 1 3, Some ''    ''), (mkRange 2 1 2 1, Some ''  '')],
                  trackedSelections = [], tokenOf = (\<lambda>n. [])\<rparr>)) \<and>
   foldl applyEdit [''  x'', ''y'', ''z''] [(mkRange 1 1 1 3, Some ''    '')] = [''    x'', ''y'', ''z'']"
proof -
  let ?svc = "fixedCollaborators None None"
  let ?m = "plainTextModel [''  x'', ''y'', ''z'']"
  let ?s = "mkRange 1 1 2 3"
  let ?cmd = "moveCommand (mkRange 1 1 2 3) True AutoIndent_Full 1 3 True"
  have h1: "1 \<le> startLineNumber ?s" by (simp add: mkRange_def)
  have h2: "endLineNumber ?s \<le> getLineCount ?m"
    by (simp add: mkRange_def getLineCount_def plainTextModel_def)
  have up: "[1..2] = [1, 2::int]" by (simp add: upto_rec1)
  have e0: "leadingWhitespaceEdit ?svc ?m 4 True 0 1 = []" "leadingWhitespaceEdit ?svc ?m 4 True 0 2 = []"
           "leadingWhitespaceEdit ?svc ?m 4 True 2 1 = [(mkRange 1 1 1 3, Some ''    '')]"
           "leadingWhitespaceEdit ?svc ?m 4 True 2 2 = [(mkRange 2 1 2 1, Some ''  '')]"
    by (simp_all add: leadingWhitespaceEdit_def regeneratedIndent_def getLeadingWhitespace_def
        isSpaceOrTab_def plainTextModel_def fixedCollaborators_def mkRange_def
        indentUtils_getSpaceCnt_def indentUtils_generateIndent_def Let_def eval_nat_numeral)
  have r: "regeneratedIndent ?svc 4 True 2 ''  x'' = ''    ''"
    by (simp add: regeneratedIndent_def getLeadingWhitespace_def isSpaceOrTab_def
        fixedCollaborators_def indentUtils_getSpaceCnt_def indentUtils_generateIndent_def
        eval_nat_numeral)
  have lm: "lines ?m = [''  x'', ''y'', ''z'']" by (simp add: plainTextModel_def)
  note c0 = indent_edits_of_moving_block_C9[OF h1 h2, of ?svc 4 True 0 ?cmd emptyBuilder]
  note c2 = indent_edits_of_moving_block_C9[OF h1 h2, of ?svc 4 True 2 ?cmd emptyBuilder]
  from c0 have a: "\<exists>cmd'. getIndentEditsOfMovingBlock ?svc ?m ?s 4 True 0 (?cmd, emptyBuilder) =
      Inr (cmd', emptyBuilder)"
    by (simp add: e0 up mkRange_def[of 1 1 2 3] emptyBuilder_def)
  from c2 have b: "\<exists>cmd'. getIndentEditsOfMovingBlock ?svc ?m ?s 4 True 2 (?cmd, emptyBuilder) =
      Inr (cmd', \<lparr>operations = [(mkRange 1 1 1 3, Some ''    ''), (mkRange 2 1 2 1, Some ''  '')],
                  trackedSelections = [], tokenOf = (\<lambda>n. [])\<rparr>)"
    by (simp add: e0 up mkRange_def[of 1 1 2 3] emptyBuilder_def)
  from c2 have "startLineNumber ?s \<le> 1 \<and> 1 \<le> endLineNumber ?s \<and>
               CHR 0x0A \<notin> set (regeneratedIndent ?svc 4 True 2 (lines ?m ! nat (1 - 1))
                                 @ lines ?m ! nat (1 - 1)) \<longrightarrow>
              foldl applyEdit (lines ?m) (leadingWhitespaceEdit ?svc ?m 4 True 2 1) =
                (lines ?m)[nat (1 - 1) :=
                   regeneratedIndent ?svc 4 True 2 (lines ?m ! nat (1 - 1))
                   @ dropWhile isSpaceOrTab (lines ?m ! nat (1 - 1))]"
    by blast
  then have c: "foldl applyEdit [''  x'', ''y'', ''z''] [(mkRange 1 1 1 3, Some ''    '')] = [''    x'', ''y'', ''z'']"
    by (simp add: e0 r lm mkRange_def[of 1 1 2 3] isSpaceOrTab_def)
  from h1 h2 a b c show ?thesis by blast
qed

subsection \<open>The re-indentation only sets the flag and appends edits\<close>

lemma onlyAddsEdits_refl: "onlyAddsEdits st st"
proof -
  have "st = ((fst st)\<lparr>moveEndLineSelectionShrink := moveEndLineSelectionShrink (fst st)\<rparr>,
              (snd st)\<lparr>operations := operations (snd st) @ []\<rparr>)"
    by simp
  then show ?thesis unfolding onlyAddsEdits_def by blast
qed

lemma onlyAddsEdits_trans:
  assumes "onlyAddsEdits a b" and "onlyAddsEdits b c"
  shows "onlyAddsEdits a c"
proof -
  from assms(1) obtain x ops where
    b: "b = ((fst a)\<lparr>moveEndLineSelectionShrink := x\<rparr>, (snd a)\<lparr>operations := operations (snd a) @ ops\<rparr>)"
    unfolding onlyAddsEdits_def by blast
  from assms(2) obtain y ops' where
    c: "c = ((fst b)\<lparr>moveEndLineSelectionShrink := y\<rparr>, (snd b)\<lparr>operations := operations (snd b) @ ops'\<rparr>)"
    unfolding onlyAddsEdits_def by blast
  from b c have "c = ((fst a)\<lparr>moveEndLineSelectionShrink := y\<rparr>,
                      (snd a)\<lparr>operations := operations (snd a) @ (ops @ ops')\<rparr>)"
    by simp
  then show ?thesis unfolding onlyAddsEdits_def by blast
qed

lemma body_onlyAddsEdits:
  "onlyAddsEdits st (getIndentEditsOfMovingBlock_body svc s ts ins offset i lineContent st)"
proof -
  let ?old = "getLeadingWhitespace lineContent"
  let ?new = "generateIndent svc (getSpaceCnt svc ?old ts + offset) ts ins"
  let ?e = "(mkRange i 1 i (int (length ?old) + 1), Some ?new)"
  show ?thesis
  proof (cases "?new = ?old")
    case True
    then have "getIndentEditsOfMovingBlock_body svc s ts ins offset i lineContent st = st"
      by (simp add: getIndentEditsOfMovingBlock_body_def Let_def)
    then show ?thesis by (simp add: onlyAddsEdits_refl)
  next
    case False
    then have "getIndentEditsOfMovingBlock_body svc s ts ins offset i lineContent st =
        ((fst st)\<lparr>moveEndLineSelectionShrink :=
            (if i = endLineNumber s \<and> endColumn s \<le> int (length ?old) + 1 \<and> ?new = []
             then True else moveEndLineSelectionShrink (fst st))\<rparr>,
         (snd st)\<lparr>operations := operations (snd st) @ [?e]\<rparr>)"
      by (simp add: getIndentEditsOfMovingBlock_body_def Let_def addEditOperation_def)
    then show ?thesis unfolding onlyAddsEdits_def by blast
  qed
qed

lemma indentEdits_from_onlyAddsEdits:
  "getIndentEditsOfMovingBlock_from svc m s ts ins offset i st = Inr st' \<Longrightarrow> onlyAddsEdits st st'"
proof (induction svc m s ts ins offset i st rule: getIndentEditsOfMovingBlock_from.induct)
  case (1 svc m s ts ins offset i st)
  show ?case
  proof (cases "i \<le> endLineNumber s")
    case False
    with "1.prems" have "st' = st" by (simp add: getIndentEditsOfMovingBlock_from.simps)
    then show ?thesis by (simp add: onlyAddsEdits_refl)
  next
    case True
    from "1.prems" True obtain lc where lc: "getLineContent m i = Inr lc"
      and rec: "getIndentEditsOfMovingBlock_from svc m s ts ins offset (i + 1)
                  (getIndentEditsOfMovingBlock_body svc s ts ins offset i lc st) = Inr st'"
      by (subst (asm) getIndentEditsOfMovingBlock_from.simps) (auto dest: bind_res_eq_Inr)
    from "1.IH"[OF True rec] body_onlyAddsEdits show ?thesis
      by (rule onlyAddsEdits_trans[rotated])
  qed
qed

lemma indentEdits_onlyAddsEdits:
  "getIndentEditsOfMovingBlock svc m s ts ins offset st = Inr st' \<Longrightarrow> onlyAddsEdits st st'"
  unfolding getIndentEditsOfMovingBlock_def by (rule indentEdits_from_onlyAddsEdits)

lemma indentRules_body_onlyAddsEdits:
  assumes "indentRules_body svc ai m vm conv s ts ins i st = Inr st'"
  shows "onlyAddsEdits st st'"
proof (cases "getGoodIndentForLine svc ai vm (getLanguageIdAtPosition m i 1) i conv")
  case None
  with assms have "st' = st" by (simp add: indentRules_body_def)
  then show ?thesis by (simp add: onlyAddsEdits_refl)
next
  case (Some lineIndent)
  with assms obtain vc where vc: "vm_getLineContent vm i = Inr vc"
    by (auto simp: indentRules_body_def dest: bind_res_eq_Inr)
  show ?thesis
  proof (cases "getSpaceCnt svc lineIndent ts = getSpaceCnt svc (getLeadingWhitespace vc) ts")
    case True
    with assms Some vc have "st' = st" by (simp add: indentRules_body_def Let_def)
    then show ?thesis by (simp add: onlyAddsEdits_refl)
  next
    case False
    with assms Some vc have "getIndentEditsOfMovingBlock svc m s ts ins
        (getSpaceCnt svc lineIndent ts - getSpaceCnt svc (getLeadingWhitespace vc) ts) st = Inr st'"
      by (simp add: indentRules_body_def Let_def)
    then show ?thesis by (rule indentEdits_onlyAddsEdits)
  qed
qed

lemma indentRules_from_onlyAddsEdits:
  "indentRules_from svc ai m vm conv s ts ins affectedEndLine i st = Inr st' \<Longrightarrow> onlyAddsEdits st st'"
proof (induction svc ai m vm conv s ts ins affectedEndLine i st rule: indentRules_from.induct)
  case (1 svc ai m vm conv s ts ins affectedEndLine i st)
  show ?case
  proof (cases "i \<le> affectedEndLine")
    case False
    with "1.prems" have "st' = st" by (simp add: indentRules_from.simps)
    then show ?thesis by (simp add: onlyAddsEdits_refl)
  next
    case True
    from "1.prems" True obtain st1 where b: "indentRules_body svc ai m vm conv s ts ins i st = Inr st1"
      and rec: "indentRules_from svc ai m vm conv s ts ins affectedEndLine (i + 1) st1 = Inr st'"
      by (subst (asm) indentRules_from.simps) (auto dest: bind_res_eq_Inr)
    from indentRules_body_onlyAddsEdits[OF b] "1.IH"[OF True rec] show ?thesis
      by (rule onlyAddsEdits_trans)
  qed
qed

lemma reindentMovedLines_onlyAddsEdits:
  assumes "reindentMovedLines svc m conv ts ins movedText st = Inr st'"
  shows "onlyAddsEdits st st'"
proof -
  from assms obtain ret where
    body: "(case ret of
              Some r \<Rightarrow>
                (if r \<noteq> 0 then getIndentEditsOfMovingBlock svc m (selection (fst st)) ts ins r st else Inr st)
            | None \<Rightarrow>
                indentRules_from svc (autoIndent (fst st)) m
                  \<lparr>vm_tokenization = m,
                   vm_getLineContent =
                     virtualModel_getLineContent m (isMovingDown (fst st)) (lr_startLineNumber (batch (fst st)))
                       (lr_endLineNumberExclusive (batch (fst st)) - 1)
                       (lr_startLineNumber (batch (fst st)) - 1) (lr_endLineNumberExclusive (batch (fst st)))\<rparr>
                  conv (selection (fst st)) ts ins
                  (if isMovingDown (fst st) then lr_endLineNumberExclusive (batch (fst st))
                   else lr_endLineNumberExclusive (batch (fst st)) - 1)
                  (if isMovingDown (fst st) then lr_startLineNumber (batch (fst st))
                   else lr_startLineNumber (batch (fst st)) - 1) st) = Inr st'"
    unfolding reindentMovedLines_def Let_def by (auto dest!: bind_res_eq_Inr)
  show ?thesis
  proof (cases ret)
    case None
    with body show ?thesis by (auto dest: indentRules_from_onlyAddsEdits)
  next
    case (Some r)
    show ?thesis
    proof (cases "r = 0")
      case True
      with body Some have "st' = st" by simp
      then show ?thesis by (simp add: onlyAddsEdits_refl)
    next
      case False
      with body Some show ?thesis by (auto dest: indentEdits_onlyAddsEdits)
    qed
  qed
qed

lemma firstInBatchEdits_result:
  assumes "firstInBatchEdits svc m conv ts ins st = Inr st'"
  shows "\<exists>x ops. st' = ((fst st)\<lparr>moveEndLineSelectionShrink := x\<rparr>,
                        (snd st)\<lparr>operations := operations (snd st) @ ops\<rparr>)"
proof -
  from assms obtain movedText b3 ops0 where
    b3: "b3 = (snd st)\<lparr>operations := operations (snd st) @ ops0\<rparr>" and
    body: "(if shouldAutoIndent svc (fst st) m (selection (fst st))
            then reindentMovedLines svc m conv ts ins movedText (fst st, b3)
            else Inr (fst st, b3)) = Inr st'"
    unfolding firstInBatchEdits_def Let_def
    by (fastforce dest!: bind_res_eq_Inr simp: addEditOperation_def split: if_splits)
  have "onlyAddsEdits (fst st, b3) st'"
  proof (cases "shouldAutoIndent svc (fst st) m (selection (fst st))")
    case True
    with body have "reindentMovedLines svc m conv ts ins movedText (fst st, b3) = Inr st'" by simp
    then show ?thesis by (rule reindentMovedLines_onlyAddsEdits)
  next
    case False
    with body have "st' = (fst st, b3)" by auto
    then show ?thesis by (simp add: onlyAddsEdits_refl)
  qed
  then obtain x ops where "st' = ((fst st)\<lparr>moveEndLineSelectionShrink := x\<rparr>,
      b3\<lparr>operations := operations b3 @ ops\<rparr>)"
    unfolding onlyAddsEdits_def by auto
  with b3 have "st' = ((fst st)\<lparr>moveEndLineSelectionShrink := x\<rparr>,
      (snd st)\<lparr>operations := operations (snd st) @ (ops0 @ ops)\<rparr>)"
    by simp
  then show ?thesis by blast
qed

lemma getEditOperations_result:
  assumes "getEditOperations svc cmd m b = Inr (cmd', b')"
  shows "if atDocumentBoundary cmd m
         then cmd' = cmd\<lparr>selectionId := Some (tokenOf b (length (trackedSelections b)))\<rparr> \<and>
              b' = b\<lparr>trackedSelections := trackedSelections b @ [selection cmd]\<rparr>
         else \<exists>x ops. cmd' = cmd\<lparr>moveEndLineSelectionShrink := x\<rparr> \<and>
                b' = b\<lparr>trackedSelections := trackedSelections b @ [selection cmd],
                       operations := operations b @ ops\<rparr>"
proof (cases "atDocumentBoundary cmd m")
  case True
  with assms show ?thesis
    by (auto simp: getEditOperations_def atDocumentBoundary_def trackSelection_def Let_def)
next
  case False
  let ?b1 = "b\<lparr>trackedSelections := trackedSelections b @ [selection cmd]\<rparr>"
  show ?thesis
  proof (cases "isFirstInBatch cmd")
    case True
    with False assms have "firstInBatchEdits svc m
        (buildIndentConverter svc (tabSize m) (indentSize m) (insertSpaces m))
        (tabSize m) (insertSpaces m) (cmd, ?b1) = Inr (cmd', b')"
      by (auto simp: getEditOperations_def atDocumentBoundary_def trackSelection_def Let_def)
    from firstInBatchEdits_result[OF this] False show ?thesis by auto
  next
    case first: False
    with False assms have c: "cmd' = cmd"
      and b: "b' = ?b1\<lparr>operations := operations b @ [(mkRange 1 1 1 1, None)]\<rparr>"
      by (auto simp: getEditOperations_def atDocumentBoundary_def trackSelection_def Let_def
          addEditOperation_def)
    have "\<exists>x ops. cmd' = cmd\<lparr>moveEndLineSelectionShrink := x\<rparr> \<and>
                b' = b\<lparr>trackedSelections := trackedSelections b @ [selection cmd],
                       operations := operations b @ ops\<rparr>"
      by (rule exI[of _ "moveEndLineSelectionShrink cmd"], rule exI[of _ "[(mkRange 1 1 1 1, None)]"])
         (simp add: c b)
    with False show ?thesis by simp
  qed
qed

subsection \<open>C10: the tracked-selection token on the edit path\<close>

text \<open>
  Claim C10: whenever \<open>getEditOperations\<close> emits real move edits (first in batch, not at a
  document boundary), \<open>_selectionId\<close> is still null when \<open>computeCursorState\<close> evaluates
  \<open>this._selectionId!\<close>, because the token returned by \<open>builder.trackSelection\<close> on that path is
  discarded; only the two boundary paths assign \<open>_selectionId\<close>.

  For a freshly constructed command whose \<open>getEditOperations\<close> returns: the selection is
  tracked on every path, the token is stored exactly at the boundary, and
  \<open>computeCursorState\<close> hands the stored value (null off the boundary) to the helper.
\<close>

theorem selectionId_null_on_edit_path_C10:
  assumes "new_MoveLinesCommand sels down ai bt first = Inr cmd"
    and "getEditOperations svc cmd m b = Inr (cmd', b')"
  shows "selectionId cmd' =
           (if atDocumentBoundary cmd m then Some (tokenOf b (length (trackedSelections b))) else None) \<and>
         trackedSelections b' = trackedSelections b @ [selection cmd] \<and>
         computeCursorState cmd' m h =
           bind_res (h (selectionId cmd'))
             (\<lambda>tracked. Inr (mkRange (startLineNumber (selection cmd) + (if down then 1 else - 1))
                               (startColumn (selection cmd))
                               (endLineNumber (selection cmd) + (if down then 1 else - 1))
                               (endColumn (selection cmd))))"
proof -
  from assms(1) obtain s ss where sels: "sels = s # ss"
    by (cases sels) simp_all
  with assms(1) have cmd: "selectionId cmd = None" "isMovingDown cmd = down" "selection cmd = s"
    by auto
  have fields: "selectionId cmd' =
           (if atDocumentBoundary cmd m then Some (tokenOf b (length (trackedSelections b))) else None) \<and>
         trackedSelections b' = trackedSelections b @ [selection cmd] \<and>
         isMovingDown cmd' = down \<and> selection cmd' = selection cmd"
  proof (cases "atDocumentBoundary cmd m")
    case True
    with getEditOperations_result[OF assms(2)] cmd show ?thesis by simp
  next
    case False
    with getEditOperations_result[OF assms(2)] obtain x ops where
      "cmd' = cmd\<lparr>moveEndLineSelectionShrink := x\<rparr>"
      "b' = b\<lparr>trackedSelections := trackedSelections b @ [selection cmd],
              operations := operations b @ ops\<rparr>"
      by auto
    with False cmd show ?thesis by simp
  qed
  then have "computeCursorState cmd' m h =
           bind_res (h (selectionId cmd'))
             (\<lambda>tracked. Inr (mkRange (startLineNumber (selection cmd) + (if down then 1 else - 1))
                               (startColumn (selection cmd))
                               (endLineNumber (selection cmd) + (if down then 1 else - 1))
                               (endColumn (selection cmd))))"
    by (simp add: computeCursorState_def Let_def)
  with fields show ?thesis by simp
qed

theorem selectionId_null_on_edit_path_C10_witness:
  "new_MoveLinesCommand [mkRange 2 3 2 5] True AutoIndent_None
     \<lparr>lr_startLineNumber = 2, lr_endLineNumberExclusive = 3\<rparr> True
     = Inr (moveCommand (mkRange 2 3 2 5) True AutoIndent_None 2 3 True) \<and>
   getEditOperations (fixedCollaborators None None)
      (moveCommand (mkRange 2 3 2 5) True AutoIndent_None 2 3 True)
      (plainTextModel [''if (x) {'', ''  foo();'', ''}'', ''bar();'']) emptyBuilder
    = Inr (moveCommand (mkRange 2 3 2 5) True AutoIndent_None 2 3 True,
           \<lparr>operations = [(mkRange 2 1 3 1, None), (mkRange 1 1 1 1, Some (CHR 0x0A # ''  foo();''))],
            trackedSelections = [mkRange 2 3 2 5], tokenOf = (\<lambda>n. [])\<rparr>) \<and>
   selectionId (moveCommand (mkRange 2 3 2 5) True AutoIndent_None 2 3 True) = None \<and>
   computeCursorState (moveCommand (mkRange 2 3 2 5) True AutoIndent_None 2 3 True)
      (plainTextModel [''if (x) {'', ''  foo();'', ''}'', ''bar();''])
      (\<lambda>t. case t of None \<Rightarrow> Inl UnknownTrackedSelection | Some k \<Rightarrow> Inr (mkRange 2 3 2 5))
    = Inl UnknownTrackedSelection"
proof -
  let ?cmd = "moveCommand (mkRange 2 3 2 5) True AutoIndent_None 2 3 True"
  let ?m = "plainTextModel [''if (x) {'', ''  foo();'', ''}'', ''bar();'']"
  let ?h = "\<lambda>t. case t of None \<Rightarrow> Inl UnknownTrackedSelection | Some k \<Rightarrow> Inr (mkRange 2 3 2 5)"
  have h1: "new_MoveLinesCommand [mkRange 2 3 2 5] True AutoIndent_None
     \<lparr>lr_startLineNumber = 2, lr_endLineNumberExclusive = 3\<rparr> True = Inr ?cmd"
    by (simp add: moveCommand_def)
  have h2: "getEditOperations (fixedCollaborators None None) ?cmd ?m emptyBuilder
    = Inr (?cmd,
           \<lparr>operations = [(mkRange 2 1 3 1, None), (mkRange 1 1 1 1, Some (CHR 0x0A # ''  foo();''))],
            trackedSelections = [mkRange 2 3 2 5], tokenOf = (\<lambda>n. [])\<rparr>)"
    by (simp add: eval_defs)
  have nb: "\<not> atDocumentBoundary ?cmd ?m"
    by (simp add: atDocumentBoundary_def moveCommand_def getLineCount_def plainTextModel_def)
  from selectionId_null_on_edit_path_C10[OF h1 h2, of ?h] nb
  have "selectionId ?cmd = None" and "computeCursorState ?cmd ?m ?h = Inl UnknownTrackedSelection"
    by simp_all
  with h1 h2 show ?thesis by blast
qed

subsection \<open>Sorting edits and telling overlaps\<close>

lemma editLe_total: "editLe ls a b \<or> editLe ls b a"
  by (auto simp: editLe_def)

lemma editLe_trans: "editLe ls a b \<Longrightarrow> editLe ls b c \<Longrightarrow> editLe ls a c"
  by (auto simp: editLe_def)

lemma set_insertEdit: "set (insertEdit ls e xs) = insert e (set xs)"
  by (induction xs) auto

lemma sorted_insertEdit:
  "sorted_wrt (editLe ls) xs \<Longrightarrow> sorted_wrt (editLe ls) (insertEdit ls e xs)"
proof (induction xs)
  case Nil
  then show ?case by simp
next
  case (Cons x xs)
  show ?case
  proof (cases "editLe ls e x")
    case True
    with Cons.prems show ?thesis by (auto intro: editLe_trans)
  next
    case False
    then have "editLe ls x e" using editLe_total[of ls e x] by simp
    with Cons False show ?thesis by (auto simp: set_insertEdit)
  qed
qed

lemma sorted_sortEdits: "sorted_wrt (editLe ls) (sortEdits ls ops)"
  unfolding sortEdits_def by (induction ops) (simp_all add: sorted_insertEdit)

lemma editsApart_sym: "editsApart ls a b = editsApart ls b a"
  by (auto simp: editsApart_def)

lemma allApart_insertEdit:
  "allApart ls (insertEdit ls e xs) = (list_all (editsApart ls e) xs \<and> allApart ls xs)"
proof (induction xs)
  case Nil
  then show ?case by simp
next
  case (Cons x xs)
  then show ?case
    using editsApart_sym[of ls e x]
    by (auto simp: list_all_iff set_insertEdit)
qed

lemma allApart_sortEdits: "allApart ls ops \<Longrightarrow> allApart ls (sortEdits ls ops)"
proof (induction ops)
  case Nil
  then show ?case by (simp add: sortEdits_def)
next
  case (Cons e ops)
  then have "allApart ls (sortEdits ls ops)" by simp
  moreover have "set (sortEdits ls ops) = set ops"
    unfolding sortEdits_def by (induction ops) (simp_all add: set_insertEdit)
  ultimately show ?case
    using Cons.prems by (simp add: sortEdits_def[symmetric] allApart_insertEdit list_all_iff)
       (simp add: sortEdits_def allApart_insertEdit list_all_iff)
qed

lemma nonOverlapping_sorted:
  "sorted_wrt (editLe ls) xs \<Longrightarrow> allApart ls xs \<Longrightarrow>
   list_all (\<lambda>e. editStart ls e \<le> editEnd ls e) xs \<Longrightarrow> nonOverlapping ls xs"
proof (induction ls xs rule: nonOverlapping.induct)
  case (3 ls x y r)
  from "3.prems" have "editLe ls x y" "editsApart ls x y" "editStart ls y \<le> editEnd ls y"
    by simp_all
  then have "editEnd ls x \<le> editStart ls y"
    by (auto simp: editLe_def editsApart_def)
  with "3" show ?case by simp
qed simp_all

lemma set_sortEdits: "set (sortEdits ls ops) = set ops"
  unfolding sortEdits_def by (induction ops) (simp_all add: set_insertEdit)

lemma nonOverlapping_sortEdits:
  assumes "allApart ls ops" and "list_all (\<lambda>e. editStart ls e \<le> editEnd ls e) ops"
  shows "nonOverlapping ls (sortEdits ls ops)"
proof -
  from assms(2) have "list_all (\<lambda>e. editStart ls e \<le> editEnd ls e) (sortEdits ls ops)"
    by (simp add: list_all_iff set_sortEdits)
  with sorted_sortEdits allApart_sortEdits[OF assms(1)] show ?thesis
    by (rule nonOverlapping_sorted)
qed

subsection \<open>The two move edits without re-indentation\<close>

lemma lineStart_mono:
  "a \<le> b \<Longrightarrow> sum_list (map f (take a ls)) \<le> (sum_list (map f (take b ls)) :: nat)"
proof -
  assume "a \<le> b"
  then obtain d where b: "b = a + d" using le_Suc_ex by blast
  show ?thesis unfolding b by (simp add: take_add)
qed

lemma lineStart_Suc:
  "k < length ls \<Longrightarrow>
   sum_list (map f (take (Suc k) ls)) = (sum_list (map f (take k ls)) + f (ls ! k) :: nat)"
  by (simp add: take_Suc_conv_app_nth)

lemma firstInBatchEdits_without_reindent:
  assumes wf: "1 \<le> lr_startLineNumber (batch cmd)"
      "lr_startLineNumber (batch cmd) < lr_endLineNumberExclusive (batch cmd)"
      "lr_endLineNumberExclusive (batch cmd) - 1 \<le> getLineCount m"
    and nb: "\<not> atDocumentBoundary cmd m"
    and ni: "\<not> shouldAutoIndent svc cmd m (selection cmd)"
  shows "\<exists>rem ins. firstInBatchEdits svc m conv ts insp (cmd, b) =
             Inr (cmd, b\<lparr>operations := operations b @ [rem, ins]\<rparr>) \<and>
           editsApart (lines m) rem ins \<and>
           editStart (lines m) rem \<le> editEnd (lines m) rem \<and>
           editStart (lines m) ins \<le> editEnd (lines m) ins"
proof -
  let ?ls = "lines m"
  let ?s = "lr_startLineNumber (batch cmd)"
  let ?e = "lr_endLineNumberExclusive (batch cmd) - 1"
  let ?L = "\<lambda>k. sum_list (map (\<lambda>x. length x + 1) (take k ?ls))"
  let ?elen = "int (length (?ls ! nat (?e - 1))) + 1"
  from wf have e: "1 \<le> ?e" "?e \<le> int (length ?ls)" "?s \<le> ?e"
    by (simp_all add: getLineCount_def)
  then have maxc: "getLineMaxColumn m ?e = Inr ?elen"
    by (simp add: getLineMaxColumn_def getLineCount_def)
  have mono1: "?L (nat (?s - 1)) \<le> ?L (nat (?e - 1))"
    using e by (intro lineStart_mono) simp
  have valid: "validRange ?ls (mkRange ?s 1 ?e ?elen)"
    using wf e mono1 by (simp add: validRange_def validPosition_def offsetAt_def mkRange_def)
  then obtain blockText where blockText: "getValueInRange m (mkRange ?s 1 ?e ?elen) = Inr blockText"
    by (simp add: getValueInRange_def Let_def)
  show ?thesis
  proof (cases "isMovingDown cmd")
    case True
    let ?rem = "(mkRange ?s 1 (?e + 1) 1, None :: string option)"
    let ?ins = "(mkRange (?s - 1) 1 (?s - 1) 1, Some (CHR 0x0A # blockText))"
    have run: "firstInBatchEdits svc m conv ts insp (cmd, b) =
        Inr (cmd, b\<lparr>operations := operations b @ [?rem, ?ins]\<rparr>)"
      using True ni maxc blockText
      by (simp add: firstInBatchEdits_def Let_def addEditOperation_def)
    have a: "?L (nat (?s - 1 - 1)) \<le> ?L (nat (?s - 1))"
      by (intro lineStart_mono) simp
    have b: "?L (nat (?s - 1)) \<le> ?L (nat ?e)"
      using e by (intro lineStart_mono) simp
    have "editsApart ?ls ?rem ?ins"
      using a by (simp add: editsApart_def editStart_def editEnd_def offsetAt_def mkRange_def)
    moreover have "editStart ?ls ?rem \<le> editEnd ?ls ?rem"
      using b by (simp add: editStart_def editEnd_def offsetAt_def mkRange_def)
    moreover have "editStart ?ls ?ins \<le> editEnd ?ls ?ins"
      by (simp add: editStart_def editEnd_def mkRange_def)
    ultimately show ?thesis using run by blast
  next
    case False
    with nb have s2: "2 \<le> ?s" using wf(1) by (simp add: atDocumentBoundary_def)
    let ?p = "?s - 1"
    let ?plen = "int (length (?ls ! nat (?p - 1))) + 1"
    from s2 e have p: "1 \<le> ?p" "?p \<le> int (length ?ls)" by simp_all
    then have maxp: "getLineMaxColumn m ?p = Inr ?plen"
      by (simp add: getLineMaxColumn_def getLineCount_def)
    let ?rem = "(mkRange ?p ?plen ?e ?elen, None :: string option)"
    let ?ins = "(mkRange (?e + 1) 1 (?e + 1) 1, Some (blockText @ [CHR 0x0A]))"
    have run: "firstInBatchEdits svc m conv ts insp (cmd, b) =
        Inr (cmd, b\<lparr>operations := operations b @ [?rem, ?ins]\<rparr>)"
      using False ni maxc maxp blockText
      by (simp add: firstInBatchEdits_def Let_def addEditOperation_def)
    have ke: "nat ?e = Suc (nat (?e - 1))" "nat (?e - 1) < length ?ls" using e by simp_all
    have Le: "?L (nat ?e) = ?L (nat (?e - 1)) + (length (?ls ! nat (?e - 1)) + 1)"
      unfolding ke(1) using ke(2) by (rule lineStart_Suc)
    have kp: "nat ?p = Suc (nat (?p - 1))" "nat (?p - 1) < length ?ls" using p by simp_all
    have Lp: "?L (nat ?p) = ?L (nat (?p - 1)) + (length (?ls ! nat (?p - 1)) + 1)"
      unfolding kp(1) using kp(2) by (rule lineStart_Suc)
    have mono2: "?L (nat ?p) \<le> ?L (nat (?e - 1))"
      using e by (intro lineStart_mono) simp
    have "editsApart ?ls ?rem ?ins"
      using Le by (simp add: editsApart_def editStart_def editEnd_def offsetAt_def mkRange_def)
    moreover have "editStart ?ls ?rem \<le> editEnd ?ls ?rem"
      using Lp mono2 by (simp add: editStart_def editEnd_def offsetAt_def mkRange_def)
    moreover have "editStart ?ls ?ins \<le> editEnd ?ls ?ins"
      by (simp add: editStart_def editEnd_def mkRange_def)
    ultimately show ?thesis using run by blast
  qed
qed

subsection \<open>The edits of a whole batch\<close>

lemma not_first_result:
  assumes "\<not> isFirstInBatch cmd"
  shows "getEditOperations svc cmd m b =
           Inr (if atDocumentBoundary cmd m
                then (cmd\<lparr>selectionId := Some (tokenOf b (length (trackedSelections b)))\<rparr>,
                      b\<lparr>trackedSelections := trackedSelections b @ [selection cmd]\<rparr>)
                else (cmd, b\<lparr>trackedSelections := trackedSelections b @ [selection cmd],
                             operations := operations b @ [(mkRange 1 1 1 1, None)]\<rparr>))"
  using assms
  by (auto simp: getEditOperations_def atDocumentBoundary_def trackSelection_def Let_def
      addEditOperation_def)

lemma others_batch:
  assumes "list_all (\<lambda>c. \<not> isFirstInBatch c \<and> atDocumentBoundary c m = bd) others"
  shows "\<exists>cs' b'. getEditOperations_batch svc others m b = Inr (cs', b') \<and>
           operations b' = operations b @
             (if bd then [] else replicate (length others) (mkRange 1 1 1 1, None))"
  using assms
proof (induction others arbitrary: b)
  case Nil
  then show ?case by simp
next
  case (Cons c cs)
  from Cons.prems have nf: "\<not> isFirstInBatch c" and bd: "atDocumentBoundary c m = bd"
    and rest: "list_all (\<lambda>c. \<not> isFirstInBatch c \<and> atDocumentBoundary c m = bd) cs"
    by simp_all
  obtain c' b1 where step: "getEditOperations svc c m b = Inr (c', b1)"
    and ops1: "operations b1 = operations b @ (if bd then [] else [(mkRange 1 1 1 1, None)])"
    using not_first_result[OF nf, of svc m b] bd by (cases bd) auto
  from Cons.IH[OF rest, of b1] obtain cs' b' where
    run: "getEditOperations_batch svc cs m b1 = Inr (cs', b')" and
    ops: "operations b' = operations b1 @
             (if bd then [] else replicate (length cs) (mkRange 1 1 1 1, None))"
    by blast
  have "getEditOperations_batch svc (c # cs) m b = Inr (c' # cs', b')"
    using step run by simp
  moreover have "operations b' = operations b @
             (if bd then [] else replicate (length (c # cs)) (mkRange 1 1 1 1, None))"
    using ops ops1 by (simp add: replicate_app_Cons_same)
  ultimately show ?case by blast
qed

lemma noOp_apart: "editsApart ls (mkRange 1 1 1 1, None) e" "editsApart ls e (mkRange 1 1 1 1, None)"
  by (simp_all add: editsApart_def editEnd_def offsetAt_def mkRange_def)

lemma allApart_noOps: "allApart ls (replicate n (mkRange 1 1 1 1, None))"
  by (induction n) (simp_all add: list_all_iff noOp_apart)

lemma batch_edit_list:
  assumes others: "list_all (\<lambda>c. \<not> isFirstInBatch c \<and> batch c = batch first \<and>
                               isMovingDown c = isMovingDown first) others"
    and first: "isFirstInBatch first"
    and wf: "1 \<le> lr_startLineNumber (batch first)"
      "lr_startLineNumber (batch first) < lr_endLineNumberExclusive (batch first)"
      "lr_endLineNumberExclusive (batch first) - 1 \<le> getLineCount m"
    and ni: "\<not> shouldAutoIndent svc first m (selection first)"
  shows "\<exists>cmds' b' moveOps.
           getEditOperations_batch svc (first # others) m b0 = Inr (cmds', b') \<and>
           length moveOps = 2 \<and>
           operations b' = operations b0 @
             (if atDocumentBoundary first m then []
              else moveOps @ replicate (length others) (mkRange 1 1 1 1, None)) \<and>
           nonOverlapping (lines m) (sortEdits (lines m)
             (if atDocumentBoundary first m then []
              else moveOps @ replicate (length others) (mkRange 1 1 1 1, None)))"
proof -
  let ?bd = "atDocumentBoundary first m"
  let ?noop = "(mkRange 1 1 1 1, None :: string option)"
  from others have others': "list_all (\<lambda>c. \<not> isFirstInBatch c \<and> atDocumentBoundary c m = ?bd) others"
    by (simp add: list_all_iff atDocumentBoundary_def)
  show ?thesis
  proof (cases ?bd)
    case True
    let ?b1 = "b0\<lparr>trackedSelections := trackedSelections b0 @ [selection first]\<rparr>"
    have step: "getEditOperations svc first m b0 =
        Inr (first\<lparr>selectionId := Some (tokenOf b0 (length (trackedSelections b0)))\<rparr>, ?b1)"
      using True
      by (auto simp: getEditOperations_def atDocumentBoundary_def trackSelection_def Let_def)
    from others_batch[OF others', of svc ?b1] True obtain cs' b' where
      run: "getEditOperations_batch svc others m ?b1 = Inr (cs', b')" and
      ops: "operations b' = operations b0" by auto
    have "getEditOperations_batch svc (first # others) m b0 =
        Inr (first\<lparr>selectionId := Some (tokenOf b0 (length (trackedSelections b0)))\<rparr> # cs', b')"
      using step run by simp
    moreover have "length [?noop, ?noop] = 2" by simp
    ultimately show ?thesis using True ops
      by (intro exI conjI) (assumption, assumption, simp_all add: sortEdits_def)
  next
    case False
    let ?b1 = "b0\<lparr>trackedSelections := trackedSelections b0 @ [selection first]\<rparr>"
    from firstInBatchEdits_without_reindent[OF wf False ni,
        of "buildIndentConverter svc (tabSize m) (indentSize m) (insertSpaces m)"
           "tabSize m" "insertSpaces m" ?b1]
    obtain rem ins where
      fb: "firstInBatchEdits svc m (buildIndentConverter svc (tabSize m) (indentSize m) (insertSpaces m))
             (tabSize m) (insertSpaces m) (first, ?b1) =
           Inr (first, ?b1\<lparr>operations := operations ?b1 @ [rem, ins]\<rparr>)"
      and apart: "editsApart (lines m) rem ins"
      and se: "editStart (lines m) rem \<le> editEnd (lines m) rem"
              "editStart (lines m) ins \<le> editEnd (lines m) ins"
      by blast
    let ?b2 = "?b1\<lparr>operations := operations ?b1 @ [rem, ins]\<rparr>"
    have step: "getEditOperations svc first m b0 = Inr (first, ?b2)"
      using False first fb
      by (auto simp: getEditOperations_def atDocumentBoundary_def trackSelection_def Let_def)
    from others_batch[OF others', of svc ?b2] False obtain cs' b' where
      run: "getEditOperations_batch svc others m ?b2 = Inr (cs', b')" and
      ops: "operations b' = operations b0 @ ([rem, ins] @ replicate (length others) ?noop)" by auto
    have all: "getEditOperations_batch svc (first # others) m b0 = Inr (first # cs', b')"
      using step run by simp
    have ap: "allApart (lines m) ([rem, ins] @ replicate (length others) ?noop)"
      using apart by (simp add: list_all_iff noOp_apart allApart_noOps)
    have st: "list_all (\<lambda>e. editStart (lines m) e \<le> editEnd (lines m) e)
                ([rem, ins] @ replicate (length others) ?noop)"
      using se by (simp add: list_all_iff editStart_def editEnd_def mkRange_def)
    have no: "nonOverlapping (lines m) (sortEdits (lines m)
                ([rem, ins] @ replicate (length others) ?noop))"
      using ap st by (rule nonOverlapping_sortEdits)
    have len: "length [rem, ins] = 2" by simp
    from all len ops no False show ?thesis
      by (intro exI[of _ "first # cs'"] exI[of _ b'] exI[of _ "[rem, ins]"]) simp
  qed
qed

subsection \<open>C4: the commands that are not first in their batch\<close>

text \<open>
  Claim C4, as amended: only the command whose first-in-batch flag is set computes the
  real move edits. Every other command emits exactly one edit, the null replacement at
  (1,1)-(1,1), requests selection tracking and emits nothing else, unless its batch is at
  the document boundary in the direction of the move: there it emits no edit at all and
  only tracks its selection. So, in a batch whose line range lies in the document, made
  of the first command and of others with its line range and direction, when the first
  command adds no re-indentation (\<open>shouldAutoIndent\<close> is false), the transaction's edit list
  is the two move edits followed by one no-op per other command (or empty at the
  boundary), and it is non-overlapping.
\<close>

theorem not_first_in_batch_C4:
  assumes "\<not> isFirstInBatch cmd"
  shows "getEditOperations svc cmd m b =
           Inr (if atDocumentBoundary cmd m
                then (cmd\<lparr>selectionId := Some (tokenOf b (length (trackedSelections b)))\<rparr>,
                      b\<lparr>trackedSelections := trackedSelections b @ [selection cmd]\<rparr>)
                else (cmd, b\<lparr>trackedSelections := trackedSelections b @ [selection cmd],
                             operations := operations b @ [(mkRange 1 1 1 1, None)]\<rparr>)) \<and>
         (\<forall>first others b0.
            cmd \<in> set others \<and>
            list_all (\<lambda>c. \<not> isFirstInBatch c \<and> batch c = batch first \<and>
                           isMovingDown c = isMovingDown first) others \<and>
            isFirstInBatch first \<and>
            1 \<le> lr_startLineNumber (batch first) \<and>
            lr_startLineNumber (batch first) < lr_endLineNumberExclusive (batch first) \<and>
            lr_endLineNumberExclusive (batch first) - 1 \<le> getLineCount m \<and>
            \<not> shouldAutoIndent svc first m (selection first) \<longrightarrow>
            (\<exists>cmds' b' moveOps.
               getEditOperations_batch svc (first # others) m b0 = Inr (cmds', b') \<and>
               length moveOps = 2 \<and>
               operations b' = operations b0 @
                 (if atDocumentBoundary first m then []
                  else moveOps @ replicate (length others) (mkRange 1 1 1 1, None)) \<and>
               nonOverlapping (lines m) (sortEdits (lines m)
                 (if atDocumentBoundary first m then []
                  else moveOps @ replicate (length others) (mkRange 1 1 1 1, None)))))"
proof (intro conjI allI impI)
  show "getEditOperations svc cmd m b =
           Inr (if atDocumentBoundary cmd m
                then (cmd\<lparr>selectionId := Some (tokenOf b (length (trackedSelections b)))\<rparr>,
                      b\<lparr>trackedSelections := trackedSelections b @ [selection cmd]\<rparr>)
                else (cmd, b\<lparr>trackedSelections := trackedSelections b @ [selection cmd],
                             operations := operations b @ [(mkRange 1 1 1 1, None)]\<rparr>))"
    using assms by (rule not_first_result)
next
  fix first others b0
  assume h: "cmd \<in> set others \<and>
            list_all (\<lambda>c. \<not> isFirstInBatch c \<and> batch c = batch first \<and>
                           isMovingDown c = isMovingDown first) others \<and>
            isFirstInBatch first \<and>
            1 \<le> lr_startLineNumber (batch first) \<and>
            lr_startLineNumber (batch first) < lr_endLineNumberExclusive (batch first) \<and>
            lr_endLineNumberExclusive (batch first) - 1 \<le> getLineCount m \<and>
            \<not> shouldAutoIndent svc first m (selection first)"
  then show "\<exists>cmds' b' moveOps.
               getEditOperations_batch svc (first # others) m b0 = Inr (cmds', b') \<and>
               length moveOps = 2 \<and>
               operations b' = operations b0 @
                 (if atDocumentBoundary first m then []
                  else moveOps @ replicate (length others) (mkRange 1 1 1 1, None)) \<and>
               nonOverlapping (lines m) (sortEdits (lines m)
                 (if atDocumentBoundary first m then []
                  else moveOps @ replicate (length others) (mkRange 1 1 1 1, None)))"
    by (intro batch_edit_list) simp_all
qed

theorem not_first_in_batch_C4_witness:
  "\<not> isFirstInBatch (moveCommand (mkRange 3 1 3 1) True AutoIndent_None 2 4 False) \<and>
   getEditOperations (fixedCollaborators None None)
      (moveCommand (mkRange 3 1 3 1) True AutoIndent_None 2 4 False)
      (plainTextModel [''a'', ''b'', ''c'', ''d'']) emptyBuilder
    = Inr (moveCommand (mkRange 3 1 3 1) True AutoIndent_None 2 4 False,
           \<lparr>operations = [(mkRange 1 1 1 1, None)], trackedSelections = [mkRange 3 1 3 1],
            tokenOf = (\<lambda>n. [])\<rparr>) \<and>
   (\<exists>cmds' b' moveOps.
      getEditOperations_batch (fixedCollaborators None None)
        [moveCommand (mkRange 2 1 2 1) True AutoIndent_None 2 4 True,
         moveCommand (mkRange 3 1 3 1) True AutoIndent_None 2 4 False]
        (plainTextModel [''a'', ''b'', ''c'', ''d'']) emptyBuilder = Inr (cmds', b') \<and>
      length moveOps = 2 \<and>
      operations b' = moveOps @ [(mkRange 1 1 1 1, None)] \<and>
      nonOverlapping [''a'', ''b'', ''c'', ''d'']
        (sortEdits [''a'', ''b'', ''c'', ''d''] (moveOps @ [(mkRange 1 1 1 1, None)])))"
proof -
  let ?cmd = "moveCommand (mkRange 3 1 3 1) True AutoIndent_None 2 4 False"
  let ?first = "moveCommand (mkRange 2 1 2 1) True AutoIndent_None 2 4 True"
  let ?svc = "fixedCollaborators None None"
  let ?m = "plainTextModel [''a'', ''b'', ''c'', ''d'']"
  have nf: "\<not> isFirstInBatch ?cmd" by (simp add: moveCommand_def)
  have nb: "\<not> atDocumentBoundary ?cmd ?m" "\<not> atDocumentBoundary ?first ?m"
    by (simp_all add: atDocumentBoundary_def moveCommand_def getLineCount_def plainTextModel_def)
  have sel: "selection ?cmd = mkRange 3 1 3 1" by (simp add: moveCommand_def)
  have lm: "lines ?m = [''a'', ''b'', ''c'', ''d'']" by (simp add: plainTextModel_def)
  have hyp: "?cmd \<in> set [?cmd] \<and>
            list_all (\<lambda>c. \<not> isFirstInBatch c \<and> batch c = batch ?first \<and>
                           isMovingDown c = isMovingDown ?first) [?cmd] \<and>
            isFirstInBatch ?first \<and>
            1 \<le> lr_startLineNumber (batch ?first) \<and>
            lr_startLineNumber (batch ?first) < lr_endLineNumberExclusive (batch ?first) \<and>
            lr_endLineNumberExclusive (batch ?first) - 1 \<le> getLineCount ?m \<and>
            \<not> shouldAutoIndent ?svc ?first ?m (selection ?first)"
    by (simp add: moveCommand_def getLineCount_def plainTextModel_def shouldAutoIndent_def)
  note inst = not_first_in_batch_C4[OF nf, of ?svc ?m emptyBuilder]
  from inst nb have a: "getEditOperations ?svc ?cmd ?m emptyBuilder
          = Inr (?cmd, \<lparr>operations = [(mkRange 1 1 1 1, None)], trackedSelections = [mkRange 3 1 3 1],
                        tokenOf = (\<lambda>n. [])\<rparr>)"
    by (simp add: sel emptyBuilder_def)
  from inst have "?cmd \<in> set [?cmd] \<and>
            list_all (\<lambda>c. \<not> isFirstInBatch c \<and> batch c = batch ?first \<and>
                           isMovingDown c = isMovingDown ?first) [?cmd] \<and>
            isFirstInBatch ?first \<and>
            1 \<le> lr_startLineNumber (batch ?first) \<and>
            lr_startLineNumber (batch ?first) < lr_endLineNumberExclusive (batch ?first) \<and>
            lr_endLineNumberExclusive (batch ?first) - 1 \<le> getLineCount ?m \<and>
            \<not> shouldAutoIndent ?svc ?first ?m (selection ?first) \<longrightarrow>
            (\<exists>cmds' b' moveOps.
               getEditOperations_batch ?svc (?first # [?cmd]) ?m emptyBuilder = Inr (cmds', b') \<and>
               length moveOps = 2 \<and>
               operations b' = operations emptyBuilder @
                 (if atDocumentBoundary ?first ?m then []
                  else moveOps @ replicate (length [?cmd]) (mkRange 1 1 1 1, None)) \<and>
               nonOverlapping (lines ?m) (sortEdits (lines ?m)
                 (if atDocumentBoundary ?first ?m then []
                  else moveOps @ replicate (length [?cmd]) (mkRange 1 1 1 1, None))))"
    by blast
  with hyp have "\<exists>cmds' b' moveOps.
               getEditOperations_batch ?svc (?first # [?cmd]) ?m emptyBuilder = Inr (cmds', b') \<and>
               length moveOps = 2 \<and>
               operations b' = operations emptyBuilder @
                 (if atDocumentBoundary ?first ?m then []
                  else moveOps @ replicate (length [?cmd]) (mkRange 1 1 1 1, None)) \<and>
               nonOverlapping (lines ?m) (sortEdits (lines ?m)
                 (if atDocumentBoundary ?first ?m then []
                  else moveOps @ replicate (length [?cmd]) (mkRange 1 1 1 1, None)))"
    by blast
  then have b: "\<exists>cmds' b' moveOps.
      getEditOperations_batch ?svc [?first, ?cmd] ?m emptyBuilder = Inr (cmds', b') \<and>
      length moveOps = 2 \<and>
      operations b' = moveOps @ [(mkRange 1 1 1 1, None)] \<and>
      nonOverlapping [''a'', ''b'', ''c'', ''d'']
        (sortEdits [''a'', ''b'', ''c'', ''d''] (moveOps @ [(mkRange 1 1 1 1, None)]))"
    using nb(2) by (simp add: lm emptyBuilder_def)
  from nf a b show ?thesis by blast
qed

text \<open>
  The claim as stated fails twice. At the boundary: the command for line 4 of a batch
  holding lines 3 and 4 of a four-line buffer, not first in its batch and moving down,
  emits no edit at all. With re-indentation: on the lines "w", "  x", "  y", "z", the
  first command of the batch of lines 2..3 (its selection on line 2) matches an enter
  rule that predicts no indentation and adds the edit (2,1)-(2,3) inside the block it
  removes with (2,1)-(4,1); with the no-op of the other command the edit list overlaps,
  and the transaction is refused.
\<close>

theorem not_first_in_batch_counterexample_C4:
  "\<not> isFirstInBatch (moveCommand (mkRange 4 1 4 1) True AutoIndent_None 3 5 False) \<and>
   getEditOperations (fixedCollaborators None None)
      (moveCommand (mkRange 4 1 4 1) True AutoIndent_None 3 5 False)
      (plainTextModel [''a'', ''b'', ''c'', ''d'']) emptyBuilder
    = Inr ((moveCommand (mkRange 4 1 4 1) True AutoIndent_None 3 5 False)\<lparr>selectionId := Some []\<rparr>,
           \<lparr>operations = [], trackedSelections = [mkRange 4 1 4 1], tokenOf = (\<lambda>n. [])\<rparr>) \<and>
   getEditOperations_batch
      (fixedCollaborators (Some \<lparr>indentAction = IndentAction_None, appendText = '''', indentation = ''''\<rparr>)
         (Some IndentRulesSupportObject))
      [moveCommand (mkRange 2 1 2 3) True AutoIndent_Full 2 4 True,
       moveCommand (mkRange 3 1 3 3) True AutoIndent_Full 2 4 False]
      (plainTextModel [''w'', ''  x'', ''  y'', ''z'']) emptyBuilder
    = Inr ([(moveCommand (mkRange 2 1 2 3) True AutoIndent_Full 2 4 True)\<lparr>moveEndLineSelectionShrink := True\<rparr>,
            moveCommand (mkRange 3 1 3 3) True AutoIndent_Full 2 4 False],
           \<lparr>operations = [(mkRange 2 1 4 1, None),
                          (mkRange 1 1 1 1, Some (CHR 0x0A # ''  x'' @ CHR 0x0A # ''  y'')),
                          (mkRange 2 1 2 3, Some ''''),
                          (mkRange 1 1 1 1, None)],
            trackedSelections = [mkRange 2 1 2 3, mkRange 3 1 3 3], tokenOf = (\<lambda>n. [])\<rparr>) \<and>
   \<not> nonOverlapping [''w'', ''  x'', ''  y'', ''z'']
        (sortEdits [''w'', ''  x'', ''  y'', ''z'']
           [(mkRange 2 1 4 1, None),
            (mkRange 1 1 1 1, Some (CHR 0x0A # ''  x'' @ CHR 0x0A # ''  y'')),
            (mkRange 2 1 2 3, Some ''''),
            (mkRange 1 1 1 1, None)]) \<and>
   applyEdits [''w'', ''  x'', ''  y'', ''z'']
           [(mkRange 2 1 4 1, None),
            (mkRange 1 1 1 1, Some (CHR 0x0A # ''  x'' @ CHR 0x0A # ''  y'')),
            (mkRange 2 1 2 3, Some ''''),
            (mkRange 1 1 1 1, None)] = None"
proof (intro conjI)
  show "\<not> isFirstInBatch (moveCommand (mkRange 4 1 4 1) True AutoIndent_None 3 5 False)"
    by (simp add: moveCommand_def)
  show "getEditOperations (fixedCollaborators None None)
      (moveCommand (mkRange 4 1 4 1) True AutoIndent_None 3 5 False)
      (plainTextModel [''a'', ''b'', ''c'', ''d'']) emptyBuilder
    = Inr ((moveCommand (mkRange 4 1 4 1) True AutoIndent_None 3 5 False)\<lparr>selectionId := Some []\<rparr>,
           \<lparr>operations = [], trackedSelections = [mkRange 4 1 4 1], tokenOf = (\<lambda>n. [])\<rparr>)"
    by (simp add: eval_defs)
  show "getEditOperations_batch
      (fixedCollaborators (Some \<lparr>indentAction = IndentAction_None, appendText = '''', indentation = ''''\<rparr>)
         (Some IndentRulesSupportObject))
      [moveCommand (mkRange 2 1 2 3) True AutoIndent_Full 2 4 True,
       moveCommand (mkRange 3 1 3 3) True AutoIndent_Full 2 4 False]
      (plainTextModel [''w'', ''  x'', ''  y'', ''z'']) emptyBuilder
    = Inr ([(moveCommand (mkRange 2 1 2 3) True AutoIndent_Full 2 4 True)\<lparr>moveEndLineSelectionShrink := True\<rparr>,
            moveCommand (mkRange 3 1 3 3) True AutoIndent_Full 2 4 False],
           \<lparr>operations = [(mkRange 2 1 4 1, None),
                          (mkRange 1 1 1 1, Some (CHR 0x0A # ''  x'' @ CHR 0x0A # ''  y'')),
                          (mkRange 2 1 2 3, Some ''''),
                          (mkRange 1 1 1 1, None)],
            trackedSelections = [mkRange 2 1 2 3, mkRange 3 1 3 3], tokenOf = (\<lambda>n. [])\<rparr>)"
    by (simp add: eval_defs)
  show "\<not> nonOverlapping [''w'', ''  x'', ''  y'', ''z'']
        (sortEdits [''w'', ''  x'', ''  y'', ''z'']
           [(mkRange 2 1 4 1, None),
            (mkRange 1 1 1 1, Some (CHR 0x0A # ''  x'' @ CHR 0x0A # ''  y'')),
            (mkRange 2 1 2 3, Some ''''),
            (mkRange 1 1 1 1, None)])"
    by (simp add: apply_defs)
  show "applyEdits [''w'', ''  x'', ''  y'', ''z'']
           [(mkRange 2 1 4 1, None),
            (mkRange 1 1 1 1, Some (CHR 0x0A # ''  x'' @ CHR 0x0A # ''  y'')),
            (mkRange 2 1 2 3, Some ''''),
            (mkRange 1 1 1 1, None)] = None"
    by (simp add: apply_defs)
qed

subsection \<open>C5: the final selection\<close>





subsection \<open>C6: the virtual line content\<close>

text \<open>
  Claim C6: the virtual line-content view returns, for a line inside the affected span,
  that line's content after the move, and for a line outside it the buffer's content.

  On the lines "a", "b", "c", "d": moving line 2 down (affected span 2..3), the text after
  the move is "a", "c", "b", "d", but the view answers "b" for line 1 (outside the span),
  "d" for line 3 (inside) and "d" for line 4; moving line 3 up (affected span 2..3), it
  answers "a" for line 2 (inside; "c" after the move) and "c" for line 4 (outside). Only
  the first branch of each direction is right.
\<close>

theorem virtual_line_content_C6:
  "map (virtualModel_getLineContent (plainTextModel [''a'', ''b'', ''c'', ''d'']) True 2 2 1 3) [1, 2, 3, 4]
     = [Inr ''b'', Inr ''c'', Inr ''d'', Inr ''d''] \<and>
   map (virtualModel_getLineContent (plainTextModel [''a'', ''b'', ''c'', ''d'']) False 3 3 2 4) [1, 2, 3, 4]
     = [Inr ''a'', Inr ''a'', Inr ''b'', Inr ''c''] \<and>
   [Inr ''b'', Inr ''c'', Inr ''d'', Inr ''d''] \<noteq> (map Inr [''a'', ''c'', ''b'', ''d''] :: (error + string) list) \<and>
   [Inr ''a'', Inr ''a'', Inr ''b'', Inr ''c''] \<noteq> (map Inr [''a'', ''c'', ''b'', ''d''] :: (error + string) list)"
  by (simp add: virtualModel_getLineContent_def getLineContent_def getLineCount_def plainTextModel_def)

end
